theory Spec2Isabelle
  imports Complex_Main
begin

section \<open>Errors and decimals\<close>

text \<open>
  The four error classes of the chain API that the sources throw. Each carries its message.
  A throw is a value \<open>Inl e\<close> of the result; a normal return is \<open>Inr v\<close>.
\<close>

datatype error =
    isConflict: ConflictError string
  | isNotFound: NotFoundError string
  | isUnauthorized: UnauthorizedError string
  | isValidationFailed: ValidationFailedError string

text \<open>
  A finite \<open>BigNumber\<close> is a rational number: \<open>plus\<close>, \<open>minus\<close>, \<open>times\<close> and the
  comparisons of the library are exact on finite values. Only \<open>dividedBy\<close> rounds, by the
  library's configuration, which no source file sets: it is a parameter of the model.
  The plain numbers of \<open>Pool\<close> (\<open>fee\<close>, \<open>protocolFees\<close>, \<open>tickSpacing\<close>) are rationals
  and integers as well.
\<close>

type_synonym BigNumber = rat

section \<open>swap.helper.ts: the swap loop\<close>

record SwapState =
  sqrtPrice :: BigNumber
  tick :: int
  liquidity :: BigNumber
  amountSpecifiedRemaining :: BigNumber
  amountCalculated :: BigNumber
  feeGrowthGlobalX :: BigNumber
  protocolFee :: BigNumber

record Pool =
  token0 :: string
  token1 :: string
  fee :: rat
  tickSpacing :: int
  bitmap :: "(string \<times> string) list"
  feeGrowthGlobal0 :: BigNumber
  feeGrowthGlobal1 :: BigNumber
  protocolFees :: rat

text \<open>
  What \<open>processSwapSteps\<close> imports from \<open>../../api/\<close> and \<open>./tickData.helper\<close>: these
  functions and constants are not among the sources, so the loop takes them as parameters.
  \<open>'l\<close> is the ledger as the transaction sees it; \<open>fetchOrCreateAndCrossTick\<close> is the only
  call of the loop that reads and writes it, and it may throw, as \<open>computeSwapStep\<close> may.
\<close>

record 'l SwapEnv =
  MIN_TICK :: int
  MAX_TICK :: int
  f18 :: "BigNumber \<Rightarrow> BigNumber"
  dividedBy :: "BigNumber \<Rightarrow> BigNumber \<Rightarrow> BigNumber"
  nextInitialisedTickWithInSameWord ::
    "(string \<times> string) list \<Rightarrow> int \<Rightarrow> int \<Rightarrow> bool \<Rightarrow> BigNumber \<Rightarrow> int \<times> bool"
  tickToSqrtPrice :: "int \<Rightarrow> BigNumber"
  sqrtPriceToTick :: "BigNumber \<Rightarrow> int"
  computeSwapStep ::
    "BigNumber \<Rightarrow> BigNumber \<Rightarrow> BigNumber \<Rightarrow> BigNumber \<Rightarrow> rat
      \<Rightarrow> error + (BigNumber \<times> BigNumber \<times> BigNumber \<times> BigNumber)"
  genPoolHash :: "Pool \<Rightarrow> string"
  fetchOrCreateAndCrossTick ::
    "'l \<Rightarrow> string \<Rightarrow> int \<Rightarrow> BigNumber \<Rightarrow> BigNumber \<Rightarrow> error + (BigNumber \<times> 'l)"

text \<open>The loop condition, lines 59 to 63.\<close>

definition swapContinues :: "'l SwapEnv \<Rightarrow> SwapState \<Rightarrow> BigNumber \<Rightarrow> bool" where
  "swapContinues env state sqrtPriceLimit \<longleftrightarrow>
     f18 env (amountSpecifiedRemaining state) \<noteq> 0 \<and> sqrtPrice state \<noteq> sqrtPriceLimit"

text \<open>The target price handed to \<open>computeSwapStep\<close>, lines 95 to 101.\<close>

definition stepTarget :: "bool \<Rightarrow> BigNumber \<Rightarrow> BigNumber \<Rightarrow> BigNumber" where
  "stepTarget zeroForOne sqrtPriceNext sqrtPriceLimit =
     (if (if zeroForOne then sqrtPriceNext < sqrtPriceLimit else sqrtPriceNext > sqrtPriceLimit)
      then sqrtPriceLimit else sqrtPriceNext)"

text \<open>Lines 107 to 116: the remaining and the calculated amounts.\<close>

definition applyAmounts ::
  "bool \<Rightarrow> BigNumber \<Rightarrow> BigNumber \<Rightarrow> BigNumber \<Rightarrow> SwapState \<Rightarrow> SwapState" where
  "applyAmounts exactInput amountIn amountOut feeAmount state =
     (if exactInput
      then state\<lparr>amountSpecifiedRemaining := amountSpecifiedRemaining state - (amountIn + feeAmount),
                 amountCalculated := amountCalculated state - amountOut\<rparr>
      else state\<lparr>amountSpecifiedRemaining := amountSpecifiedRemaining state + amountOut,
                 amountCalculated := amountCalculated state + (amountIn + feeAmount)\<rparr>)"

text \<open>
  Lines 118 to 123: the protocol's share. The result is the fee amount left for the
  liquidity providers and the state with the share added.
\<close>

definition applyProtocolFee :: "Pool \<Rightarrow> BigNumber \<Rightarrow> SwapState \<Rightarrow> BigNumber \<times> SwapState" where
  "applyProtocolFee pool feeAmount state =
     (if protocolFees pool > 0
      then (let delta = feeAmount * protocolFees pool
            in (feeAmount - delta, state\<lparr>protocolFee := protocolFee state + delta\<rparr>))
      else (feeAmount, state))"

text \<open>Lines 125 to 128: the fee growth accumulator.\<close>

definition applyFeeGrowth :: "'l SwapEnv \<Rightarrow> BigNumber \<Rightarrow> SwapState \<Rightarrow> SwapState" where
  "applyFeeGrowth env feeAmount state =
     (if liquidity state > 0
      then state\<lparr>feeGrowthGlobalX := feeGrowthGlobalX state + dividedBy env feeAmount (liquidity state)\<rparr>
      else state)"

text \<open>
  Lines 130 to 151: the tick crossing and the tick pointer, once the step's price is in
  \<open>state\<close>. \<open>sqrtPriceStart\<close> is the price at the head of the iteration.
\<close>

definition crossTick ::
  "'l SwapEnv \<Rightarrow> 'l \<Rightarrow> Pool \<Rightarrow> bool \<Rightarrow> BigNumber \<Rightarrow> int \<Rightarrow> bool \<Rightarrow> BigNumber \<Rightarrow> SwapState
    \<Rightarrow> error + (SwapState \<times> 'l)" where
  "crossTick env led pool zeroForOne sqrtPriceStart tickNext initialised sqrtPriceNext state =
     (if sqrtPrice state = sqrtPriceNext then
        (if initialised then
           (case fetchOrCreateAndCrossTick env led (genPoolHash env pool) tickNext
                   (if zeroForOne then feeGrowthGlobalX state else feeGrowthGlobal0 pool)
                   (if zeroForOne then feeGrowthGlobal1 pool else feeGrowthGlobalX state) of
              Inl e \<Rightarrow> Inl e
            | Inr (liquidityNet0, led') \<Rightarrow>
                (let liquidityNet = (if zeroForOne then liquidityNet0 * (- 1) else liquidityNet0)
                 in Inr (state\<lparr>liquidity := liquidity state + liquidityNet,
                                tick := (if zeroForOne then tickNext - 1 else tickNext)\<rparr>, led')))
         else Inr (state\<lparr>tick := (if zeroForOne then tickNext - 1 else tickNext)\<rparr>, led))
      else if sqrtPrice state \<noteq> sqrtPriceStart then
        Inr (state\<lparr>tick := sqrtPriceToTick env (sqrtPrice state)\<rparr>, led)
      else Inr (state, led))"

text \<open>One iteration of the loop, lines 64 to 151.\<close>

definition swapStep ::
  "'l SwapEnv \<Rightarrow> 'l \<Rightarrow> SwapState \<Rightarrow> Pool \<Rightarrow> BigNumber \<Rightarrow> bool \<Rightarrow> bool \<Rightarrow> error + (SwapState \<times> 'l)" where
  "swapStep env led state pool sqrtPriceLimit exactInput zeroForOne =
     (let sqrtPriceStart = sqrtPrice state;
          (tickNext, initialised) =
             nextInitialisedTickWithInSameWord env (bitmap pool) (tick state) (tickSpacing pool)
               zeroForOne (sqrtPrice state)
      in if tickNext < MIN_TICK env \<or> tickNext > MAX_TICK env
         then Inl (ConflictError ''Not enough liquidity available in pool'')
         else
           (let sqrtPriceNext = tickToSqrtPrice env tickNext
            in case computeSwapStep env (sqrtPrice state)
                      (stepTarget zeroForOne sqrtPriceNext sqrtPriceLimit)
                      (liquidity state) (amountSpecifiedRemaining state) (fee pool) of
                 Inl e \<Rightarrow> Inl e
               | Inr (price, amountIn, amountOut, feeAmount) \<Rightarrow>
                   (let state1 = applyAmounts exactInput amountIn amountOut feeAmount
                                   (state\<lparr>sqrtPrice := price\<rparr>);
                        (feeAmount', state2) = applyProtocolFee pool feeAmount state1;
                        state3 = applyFeeGrowth env feeAmount' state2
                    in crossTick env led pool zeroForOne sqrtPriceStart tickNext initialised
                         sqrtPriceNext state3)))"

text \<open>
  The loop. Nothing in it bounds the number of iterations, so it is a partial function:
  \<open>None\<close> is a run that never returns, \<open>Some (Inl e)\<close> a throw, \<open>Some (Inr (state, led))\<close>
  the returned state with the ledger as the loop left it.
\<close>

partial_function (option) processSwapSteps ::
  "'l SwapEnv \<Rightarrow> 'l \<Rightarrow> SwapState \<Rightarrow> Pool \<Rightarrow> BigNumber \<Rightarrow> bool \<Rightarrow> bool
    \<Rightarrow> (error + (SwapState \<times> 'l)) option" where
  "processSwapSteps env led state pool sqrtPriceLimit exactInput zeroForOne =
     (if swapContinues env state sqrtPriceLimit then
        (case swapStep env led state pool sqrtPriceLimit exactInput zeroForOne of
           Inl e \<Rightarrow> Some (Inl e)
         | Inr (state', led') \<Rightarrow>
             processSwapSteps env led' state' pool sqrtPriceLimit exactInput zeroForOne)
      else Some (Inr (state, led)))"

declare processSwapSteps.simps [code]

text \<open>
  An execution of the loop, seen from the head of an iteration: \<open>swapReaches (state, led)
  (state', led')\<close> says that the loop started at \<open>state\<close> on ledger \<open>led\<close> comes to the
  head of an iteration at \<open>state'\<close> on \<open>led'\<close> after some number of iterations, none of
  which threw.
\<close>

inductive swapReaches ::
  "'l SwapEnv \<Rightarrow> Pool \<Rightarrow> BigNumber \<Rightarrow> bool \<Rightarrow> bool \<Rightarrow> SwapState \<times> 'l \<Rightarrow> SwapState \<times> 'l \<Rightarrow> bool"
  for env :: "'l SwapEnv" and pool :: Pool and sqrtPriceLimit :: BigNumber
    and exactInput :: bool and zeroForOne :: bool where
  here: "swapReaches env pool sqrtPriceLimit exactInput zeroForOne (state, led) (state, led)"
| iteration:
    "swapContinues env state sqrtPriceLimit \<Longrightarrow>
     swapStep env led state pool sqrtPriceLimit exactInput zeroForOne = Inr (state', led') \<Longrightarrow>
     swapReaches env pool sqrtPriceLimit exactInput zeroForOne (state', led') (state'', led'') \<Longrightarrow>
     swapReaches env pool sqrtPriceLimit exactInput zeroForOne (state, led) (state'', led'')"

text \<open>
  The fee amount that \<open>computeSwapStep\<close> returns in the iteration that starts at \<open>state\<close>
  (\<open>None\<close> when the iteration throws before it has one), and what the iteration adds to
  \<open>feeGrowthGlobalX\<close>: the fee left after the protocol's share, divided by the liquidity,
  under the guard of line 126.
\<close>

definition stepFeeAmount ::
  "'l SwapEnv \<Rightarrow> SwapState \<Rightarrow> Pool \<Rightarrow> BigNumber \<Rightarrow> bool \<Rightarrow> BigNumber option" where
  "stepFeeAmount env state pool sqrtPriceLimit zeroForOne =
     (let (tickNext, initialised) =
             nextInitialisedTickWithInSameWord env (bitmap pool) (tick state) (tickSpacing pool)
               zeroForOne (sqrtPrice state)
      in if tickNext < MIN_TICK env \<or> tickNext > MAX_TICK env then None
         else case computeSwapStep env (sqrtPrice state)
                     (stepTarget zeroForOne (tickToSqrtPrice env tickNext) sqrtPriceLimit)
                     (liquidity state) (amountSpecifiedRemaining state) (fee pool) of
                Inl e \<Rightarrow> None
              | Inr (price, amountIn, amountOut, feeAmount) \<Rightarrow> Some feeAmount)"

definition feeGrowthAdded :: "'l SwapEnv \<Rightarrow> Pool \<Rightarrow> SwapState \<Rightarrow> BigNumber \<Rightarrow> BigNumber" where
  "feeGrowthAdded env pool state feeAmount =
     (if liquidity state > 0
      then dividedBy env
             (if protocolFees pool > 0 then feeAmount - feeAmount * protocolFees pool else feeAmount)
             (liquidity state)
      else 0)"

text \<open>
  Modelled from the spec: the transaction boundary of sections 5 and 7, which belongs to
  the chaincode framework and is not part of this repository. An error that reaches it
  aborts the ledger write, so the ledger stays as it was before the call; a normal return
  commits what the call wrote. A run that never returns commits nothing.
\<close>

definition ledgerAfter :: "'l \<Rightarrow> (error + ('a \<times> 'l)) option \<Rightarrow> 'l" where
  "ledgerAfter led outcome =
     (case outcome of
        None \<Rightarrow> led
      | Some (Inl e) \<Rightarrow> led
      | Some (Inr (result, led')) \<Rightarrow> led')"

section \<open>getUserPositions.ts: paging over a user's positions\<close>

text \<open>
  The ledger objects the function reads. Keys and hashes are opaque strings. An owner's
  \<open>tickRangeMap\<close> is a list of entries in the order \<open>Object.entries\<close> gives them.
\<close>

record DexPositionOwner =
  ownerPoolHash :: string
  tickRangeMap :: "(string \<times> string list) list"

record DexPositionData =
  poolHash :: string
  tickUpper :: int
  tickLower :: int
  positionLiquidity :: BigNumber
  positionId :: string
  token0ClassKey :: string
  token1ClassKey :: string
  positionFee :: rat

record TokenClass =
  image :: string
  symbol :: string

record IPosition =
  iPoolHash :: string
  iTickUpper :: int
  iTickLower :: int
  iLiquidity :: string
  iPositionId :: string
  token0Img :: string
  token1Img :: string
  iToken0ClassKey :: string
  iToken1ClassKey :: string
  iFee :: rat
  token0Symbol :: string
  token1Symbol :: string

text \<open>
  One page of the ledger's paginated query: its objects and \<open>metadata.bookmark\<close>, which
  may be missing (\<open>None\<close>) or empty.
\<close>

record OwnerPage =
  results :: "DexPositionOwner list"
  metadataBookmark :: "string option"

record GetUserPositionsDto =
  user :: string
  limit :: int
  bookmark :: string

record GetUserPositionsResDto =
  positions :: "IPosition list"
  nextBookMark :: string

text \<open>
  The calls into the chain framework and into \<open>./dexUtils\<close> and \<open>./position.helper\<close>,
  none of them among the sources: parameters of the model. The ledger is only read here,
  so each read is a function of its arguments. \<open>jsNumber\<close> is \<open>Number(...)\<close> on the local
  part of the bookmark; the model takes its value to be an integer (negative ones
  included), what \<open>Number\<close> gives on a string that spells one.
\<close>

record PositionsEnv =
  splitBookmark :: "string \<Rightarrow> string \<times> string"
  jsNumber :: "string \<Rightarrow> int"
  getObjectsByPartialCompositeKeyWithPagination :: "string \<Rightarrow> string \<Rightarrow> error + OwnerPage"
  parseTickRange :: "string \<Rightarrow> error + (int \<times> int)"
  getDexPosition :: "string \<Rightarrow> int \<Rightarrow> int \<Rightarrow> string \<Rightarrow> error + DexPositionData"
  fetchTokenClass :: "string \<times> BigNumber \<Rightarrow> error + TokenClass"
  toFixed :: "BigNumber \<Rightarrow> string"

text \<open>The variables of the paging loop, lines 46 to 51.\<close>

record PagingState =
  currentPageBookmark :: string
  positionsToSkip :: int
  positionsRequired :: int
  newLocalBookmark :: int
  isLastIteration :: bool
  userPositions :: "DexPositionData list"

text \<open>Lines 66 to 74: the page as a list of (poolHash, tickRange, positionId) triplets.\<close>

definition flattenOwners :: "DexPositionOwner list \<Rightarrow> (string \<times> string \<times> string) list" where
  "flattenOwners owners =
     concat (map (\<lambda>owner.
       concat (map (\<lambda>(tickRange, positionIds).
         map (\<lambda>pid. (ownerPoolHash owner, tickRange, pid)) positionIds) (tickRangeMap owner)))
       owners)"

text \<open>
  \<open>Array.prototype.slice(start)\<close> with an integer \<open>start\<close>: a negative one counts from
  the end of the array.
\<close>

definition jsSlice :: "'a list \<Rightarrow> int \<Rightarrow> 'a list" where
  "jsSlice xs start =
     (if start < 0 then drop (nat (max (int (length xs) + start) 0)) xs else drop (nat start) xs)"

text \<open>
  Lines 100 to 113: the \<open>for\<close> loop over the selected triplets. \<open>len\<close> is
  \<open>selectedPositionId.length\<close> and \<open>idx\<close> the index of the head of the list.
\<close>

fun fetchSelected ::
  "PositionsEnv \<Rightarrow> nat \<Rightarrow> nat \<Rightarrow> (string \<times> string \<times> string) list \<Rightarrow> PagingState \<Rightarrow> error + PagingState"
  where
  "fetchSelected env len idx [] st = Inr st"
| "fetchSelected env len idx ((infoPoolHash, infoTickRange, infoPositionId) # rest) st =
     (case parseTickRange env infoTickRange of
        Inl e \<Rightarrow> Inl e
      | Inr (tickLower', tickUpper') \<Rightarrow>
          (case getDexPosition env infoPoolHash tickUpper' tickLower' infoPositionId of
             Inl e \<Rightarrow> Inl e
           | Inr position \<Rightarrow>
               (let st' = st\<lparr>userPositions := userPositions st @ [position],
                              positionsRequired := positionsRequired st - 1,
                              isLastIteration := (int idx = int len - 1)\<rparr>
                in if positionsRequired st' = 0 then Inr st'
                   else fetchSelected env len (Suc idx) rest st')))"

text \<open>
  One pass through the body of the \<open>do\<close> loop, lines 54 to 116. The flag of the result
  says that the body left the loop by \<open>break\<close>; after \<open>continue\<close> and after the end of the
  body the loop condition is tested.
\<close>

definition pagingStep :: "PositionsEnv \<Rightarrow> string \<Rightarrow> PagingState \<Rightarrow> error + (PagingState \<times> bool)" where
  "pagingStep env usr st =
     (case getObjectsByPartialCompositeKeyWithPagination env usr (currentPageBookmark st) of
        Inl e \<Rightarrow> Inl e
      | Inr userPositionInfo \<Rightarrow>
          (let st1 = st\<lparr>newLocalBookmark := positionsToSkip st + positionsRequired st\<rparr>;
               positionInfoList = flattenOwners (results userPositionInfo);
               nextBookmark = (case metadataBookmark userPositionInfo of None \<Rightarrow> [] | Some b \<Rightarrow> b)
           in if length positionInfoList = 0 then
                (if nextBookmark \<noteq> []
                 then Inr (st1\<lparr>currentPageBookmark := nextBookmark\<rparr>, False)
                 else Inr (st1\<lparr>isLastIteration := True, currentPageBookmark := []\<rparr>, True))
              else if positionsToSkip st1 \<ge> int (length positionInfoList) then
                Inr (st1\<lparr>positionsToSkip := positionsToSkip st1 - int (length positionInfoList),
                          currentPageBookmark := nextBookmark\<rparr>, False)
              else
                (let selectedPositionId = jsSlice positionInfoList (positionsToSkip st1);
                     st2 = st1\<lparr>positionsToSkip := 0\<rparr>
                 in case fetchSelected env (length selectedPositionId) 0 selectedPositionId st2 of
                      Inl e \<Rightarrow> Inl e
                    | Inr st3 \<Rightarrow>
                        Inr (st3\<lparr>currentPageBookmark :=
                                    (if isLastIteration st3 then nextBookmark
                                     else currentPageBookmark st3)\<rparr>, False))))"

text \<open>The loop condition of line 117: both operands are tested for truthiness.\<close>

definition pagingContinues :: "PagingState \<Rightarrow> bool" where
  "pagingContinues st \<longleftrightarrow> positionsRequired st \<noteq> 0 \<and> currentPageBookmark st \<noteq> []"

text \<open>
  The \<open>do ... while\<close> loop. The ledger's pages may chain for ever, so the loop is a
  partial function: \<open>None\<close> is a run that never leaves it.
\<close>

partial_function (option) pagingLoop ::
  "PositionsEnv \<Rightarrow> string \<Rightarrow> PagingState \<Rightarrow> (error + PagingState) option" where
  "pagingLoop env usr st =
     (case pagingStep env usr st of
        Inl e \<Rightarrow> Some (Inl e)
      | Inr (st', broke) \<Rightarrow>
          if \<not> broke \<and> pagingContinues st' then pagingLoop env usr st' else Some (Inr st'))"

declare pagingLoop.simps [code]

text \<open>\<open>TokenInstanceKey.fungibleKey\<close>: the class key with instance 0.\<close>

definition fungibleKey :: "string \<Rightarrow> string \<times> BigNumber" where
  "fungibleKey classKey = (classKey, 0)"

text \<open>Lines 139 to 170.\<close>

fun addMetaDataToUserPositions :: "PositionsEnv \<Rightarrow> DexPositionData list \<Rightarrow> error + IPosition list" where
  "addMetaDataToUserPositions env [] = Inr []"
| "addMetaDataToUserPositions env (position # rest) =
     (case fetchTokenClass env (fungibleKey (token0ClassKey position)) of
        Inl e \<Rightarrow> Inl e
      | Inr token0Class \<Rightarrow>
          (case fetchTokenClass env (fungibleKey (token1ClassKey position)) of
             Inl e \<Rightarrow> Inl e
           | Inr token1Class \<Rightarrow>
               (case addMetaDataToUserPositions env rest of
                  Inl e \<Rightarrow> Inl e
                | Inr others \<Rightarrow>
                    Inr (\<lparr>iPoolHash = poolHash position,
                          iTickUpper = tickUpper position,
                          iTickLower = tickLower position,
                          iLiquidity = toFixed env (positionLiquidity position),
                          iPositionId = positionId position,
                          token0Img = image token0Class,
                          token1Img = image token1Class,
                          iToken0ClassKey = token0ClassKey position,
                          iToken1ClassKey = token1ClassKey position,
                          iFee = positionFee position,
                          token0Symbol = symbol token0Class,
                          token1Symbol = symbol token1Class\<rparr> # others))))"

text \<open>\<open>Number.prototype.toString\<close> on an integer: its decimal digits, with a minus sign.\<close>

fun natToString :: "nat \<Rightarrow> string" where
  "natToString n =
     (if n < 10 then [''0123456789'' ! n]
      else natToString (n div 10) @ [''0123456789'' ! (n mod 10)])"

definition numberToString :: "int \<Rightarrow> string" where
  "numberToString i = (if i < 0 then CHR ''-'' # natToString (nat (- i)) else natToString (nat i))"

text \<open>
  Modelled from the spec: \<open>genBookMark\<close> of \<open>./dexUtils\<close>, which is not among the sources.
  The data model gives a bookmark the shape \<open><chainBookmark>|<localBookmark>\<close>.
\<close>

definition genBookMark :: "string \<Rightarrow> string \<Rightarrow> string" where
  "genBookMark chainBookmark localBookmark = chainBookmark @ ''|'' @ localBookmark"

text \<open>The state the loop starts from, lines 44 to 51.\<close>

definition initialPaging :: "PositionsEnv \<Rightarrow> GetUserPositionsDto \<Rightarrow> PagingState" where
  "initialPaging env dto =
     (let (chainBookmark, localBookmark) = splitBookmark env (bookmark dto)
      in \<lparr>currentPageBookmark = chainBookmark,
          positionsToSkip = jsNumber env localBookmark,
          positionsRequired = limit dto,
          newLocalBookmark = jsNumber env localBookmark + limit dto,
          isLastIteration = False,
          userPositions = []\<rparr>)"

text \<open>Lines 124 to 128: the bookmark handed back.\<close>

definition newBookmark :: "PagingState \<Rightarrow> string" where
  "newBookmark st =
     (if currentPageBookmark st = [] \<and> isLastIteration st then []
      else genBookMark (currentPageBookmark st)
             (if isLastIteration st then [] else numberToString (newLocalBookmark st)))"

text \<open>Lines 119 to 133: what follows the loop.\<close>

definition finishPaging :: "PositionsEnv \<Rightarrow> PagingState \<Rightarrow> error + GetUserPositionsResDto" where
  "finishPaging env st =
     (if positionsToSkip st \<noteq> 0 then Inl (ValidationFailedError ''Invalid bookmark'')
      else case addMetaDataToUserPositions env (userPositions st) of
             Inl e \<Rightarrow> Inl e
           | Inr userPositionWithMetadata \<Rightarrow>
               Inr \<lparr>positions = userPositionWithMetadata, nextBookMark = newBookmark st\<rparr>)"

definition getUserPositions ::
  "PositionsEnv \<Rightarrow> GetUserPositionsDto \<Rightarrow> (error + GetUserPositionsResDto) option" where
  "getUserPositions env dto =
     (case pagingLoop env (user dto) (initialPaging env dto) of
        None \<Rightarrow> None
      | Some (Inl e) \<Rightarrow> Some (Inl e)
      | Some (Inr st) \<Rightarrow> Some (finishPaging env st))"

text \<open>
  The heads of the iterations of a run of the paging loop: \<open>pagingReaches st st'\<close> says
  that the loop started at \<open>st\<close> tests its condition, finds it true and starts another
  pass at \<open>st'\<close>, after some number of passes.
\<close>

inductive pagingReaches :: "PositionsEnv \<Rightarrow> string \<Rightarrow> PagingState \<Rightarrow> PagingState \<Rightarrow> bool"
  for env :: PositionsEnv and usr :: string where
  start: "pagingReaches env usr st st"
| pass: "pagingStep env usr st = Inr (st', False) \<Longrightarrow> pagingContinues st' \<Longrightarrow>
         pagingReaches env usr st' st'' \<Longrightarrow> pagingReaches env usr st st''"

section \<open>format.helper.ts: requirePosititve\<close>

text \<open>
  The helper takes any number of values of any type. What it can tell apart is whether a
  value is a \<open>BigNumber\<close> object; the other values are sorted by their JavaScript type.
\<close>

datatype jsValue =
    JsBigNumber BigNumber
  | JsNumber rat
  | JsString string
  | JsBoolean bool
  | JsNull
  | JsUndefined

fun requirePosititve :: "jsValue list \<Rightarrow> error + unit" where
  "requirePosititve [] = Inr ()"
| "requirePosititve (positive # params) =
     (case positive of
        JsBigNumber b \<Rightarrow>
          (if b < 0 then Inl (ConflictError ''Uint Out of Bounds error :Uint'')
           else requirePosititve params)
      | _ \<Rightarrow> requirePosititve params)"

section \<open>configurePoolDexFee\<close>

record ConfigurePoolDexFeeDto =
  dtoToken0 :: string
  dtoToken1 :: string
  dtoFee :: rat
  dtoProtocolFee :: rat

record ConfigurePoolDexFeeResDto =
  resProtocolFee :: rat

record DexProtocolFeeConfig =
  authorities :: "string list"

text \<open>
  The context and the calls into the chain framework and \<open>./dexUtils\<close>: parameters of the
  model. \<open>'l\<close> is the ledger of the transaction; \<open>putChainObject\<close> is the only call that
  writes it. \<open>fetchDexProtocolFeeConfig\<close> gives \<open>None\<close> for \<open>undefined\<close>.
\<close>

record 'l FeeEnv =
  callingUser :: string
  fetchDexProtocolFeeConfig :: "'l \<Rightarrow> error + DexProtocolFeeConfig option"
  validateTokenOrder :: "string \<Rightarrow> string \<Rightarrow> error + (string \<times> string)"
  INDEX_KEY :: string
  feeToString :: "rat \<Rightarrow> string"
  createCompositeKey :: "string \<Rightarrow> string list \<Rightarrow> string"
  getObjectByKey :: "'l \<Rightarrow> string \<Rightarrow> error + Pool"
  putChainObject :: "'l \<Rightarrow> Pool \<Rightarrow> error + 'l"

text \<open>
  Modelled from the spec: \<open>Pool.configureProtocolFee\<close>, a method of the \<open>Pool\<close> class, which
  is not among the sources. Section 4.6 says that it validates \<open>0 \<le> f \<le> 1\<close>, and section 7
  names the error kind \<open>Validation\<close>; the spec gives no message.
\<close>

definition configureProtocolFee :: "Pool \<Rightarrow> rat \<Rightarrow> error + Pool" where
  "configureProtocolFee pool f =
     (if 0 \<le> f \<and> f \<le> 1 then Inr (pool\<lparr>protocolFees := f\<rparr>)
      else Inl (ValidationFailedError ''protocolFee is not in the range 0 to 1''))"

definition configurePoolDexFee ::
  "'l FeeEnv \<Rightarrow> 'l \<Rightarrow> ConfigurePoolDexFeeDto \<Rightarrow> error + (ConfigurePoolDexFeeResDto \<times> 'l)" where
  "configurePoolDexFee env led dto =
     (case fetchDexProtocolFeeConfig env led of
        Inl e \<Rightarrow> Inl e
      | Inr None \<Rightarrow>
          Inl (NotFoundError
            ''Protocol fee configuration has yet to be defined. Dex fee configuration is not defined.'')
      | Inr (Some protocolFeeConfig) \<Rightarrow>
          if callingUser env \<notin> set (authorities protocolFeeConfig) then
            Inl (UnauthorizedError
              (''CallingUser '' @ callingUser env @ '' is not authorized to create or update''))
          else
            (case validateTokenOrder env (dtoToken0 dto) (dtoToken1 dto) of
               Inl e \<Rightarrow> Inl e
             | Inr (tok0, tok1) \<Rightarrow>
                 (let key = createCompositeKey env (INDEX_KEY env)
                              [tok0, tok1, feeToString env (dtoFee dto)]
                  in case getObjectByKey env led key of
                       Inl e \<Rightarrow> Inl e
                     | Inr pool \<Rightarrow>
                         (case configureProtocolFee pool (dtoProtocolFee dto) of
                            Inl e \<Rightarrow> Inl e
                          | Inr pool' \<Rightarrow>
                              (case putChainObject env led pool' of
                                 Inl e \<Rightarrow> Inl e
                               | Inr led' \<Rightarrow>
                                   Inr (\<lparr>resProtocolFee = dtoProtocolFee dto\<rparr>, led'))))))"

section \<open>Example pools, ledgers and users\<close>

text \<open>
  The theorems below hold for every choice of the parameters. To run the functions on
  concrete inputs, the examples fix one choice: a small pool over the ticks -120 to 120
  with tick spacing 60 and one initialised tick at -60, and a user whose positions lie on
  two ledger pages.
\<close>

record TickData =
  liquidityGross :: BigNumber
  liquidityNet :: BigNumber
  feeGrowthOutside0 :: BigNumber
  feeGrowthOutside1 :: BigNumber

text \<open>
  Modelled from the spec: \<open>fetchOrCreateAndCrossTick\<close> of \<open>./tickData.helper\<close> as section
  4.5 describes it, on a ledger that maps a tick to its record: it fails when the record
  is missing, and on crossing it sets each \<open>feeGrowthOutside\<close> to the global value minus
  itself, writes the record and returns \<open>liquidityNet\<close>.
\<close>

definition exampleCrossTick ::
  "(int \<Rightarrow> TickData option) \<Rightarrow> string \<Rightarrow> int \<Rightarrow> BigNumber \<Rightarrow> BigNumber
    \<Rightarrow> error + (BigNumber \<times> (int \<Rightarrow> TickData option))" where
  "exampleCrossTick led hash t feeGrowth0 feeGrowth1 =
     (case led t of
        None \<Rightarrow> Inl (NotFoundError ''tick data not found'')
      | Some td \<Rightarrow>
          Inr (liquidityNet td,
               led(t \<mapsto> td\<lparr>feeGrowthOutside0 := feeGrowth0 - feeGrowthOutside0 td,
                             feeGrowthOutside1 := feeGrowth1 - feeGrowthOutside1 td\<rparr>)))"

text \<open>
  Modelled from the spec: \<open>f18\<close> as section 4.1 describes it, truncation toward zero to 18
  fractional digits.
\<close>

definition exampleF18 :: "BigNumber \<Rightarrow> BigNumber" where
  "exampleF18 x =
     (if x < 0 then - (of_int \<lfloor>- x * 10 ^ 18\<rfloor> / 10 ^ 18) else of_int \<lfloor>x * 10 ^ 18\<rfloor> / 10 ^ 18)"

text \<open>
  A stand-in for the tick bitmap search: downwards the initialised tick -60, then the
  uninitialised boundary -180 (or the tick itself, below that); upwards the
  uninitialised boundary 120, then 300 (or the tick above, beyond that).
\<close>

definition exampleNextTick ::
  "(string \<times> string) list \<Rightarrow> int \<Rightarrow> int \<Rightarrow> bool \<Rightarrow> BigNumber \<Rightarrow> int \<times> bool" where
  "exampleNextTick bm t spacing zeroForOne price =
     (if zeroForOne then (if - 60 \<le> t then (- 60, True) else (min t (- 180), False))
      else (if t < 120 then (120, False) else (max (t + 1) 300, False)))"

text \<open>
  A stand-in for the swap step: it charges a fee of 100 in every step; given more than
  1000 it takes 1000 of it and reaches the target price, otherwise it takes all that
  remains and moves the price half of the way.
\<close>

definition exampleSwapStep ::
  "BigNumber \<Rightarrow> BigNumber \<Rightarrow> BigNumber \<Rightarrow> BigNumber \<Rightarrow> rat
    \<Rightarrow> error + (BigNumber \<times> BigNumber \<times> BigNumber \<times> BigNumber)" where
  "exampleSwapStep current target liq remaining feeTier =
     (if remaining > 1000 then Inr (target, 900, 900, 100)
      else Inr ((current + target) / 2, remaining - 100, remaining - 100, 100))"

definition exampleSwapEnv :: "(int \<Rightarrow> TickData option) SwapEnv" where
  "exampleSwapEnv =
     \<lparr>MIN_TICK = - 120,
      MAX_TICK = 120,
      f18 = exampleF18,
      dividedBy = (\<lambda>a b. a / b),
      nextInitialisedTickWithInSameWord = exampleNextTick,
      tickToSqrtPrice = (\<lambda>t. 1 + of_int t / 1000),
      sqrtPriceToTick = (\<lambda>price. \<lfloor>(price - 1) * 1000\<rfloor>),
      computeSwapStep = exampleSwapStep,
      genPoolHash = (\<lambda>pool. token0 pool @ ''/'' @ token1 pool),
      fetchOrCreateAndCrossTick = exampleCrossTick\<rparr>"

definition examplePool :: "rat \<Rightarrow> Pool" where
  "examplePool share =
     \<lparr>token0 = ''GALA'', token1 = ''USDC'', fee = 3 / 1000, tickSpacing = 60, bitmap = [],
      feeGrowthGlobal0 = 0, feeGrowthGlobal1 = 0, protocolFees = share\<rparr>"

definition exampleState :: "BigNumber \<Rightarrow> BigNumber \<Rightarrow> SwapState" where
  "exampleState liq amount =
     \<lparr>sqrtPrice = 1, tick = 0, liquidity = liq, amountSpecifiedRemaining = amount,
      amountCalculated = 0, feeGrowthGlobalX = 0, protocolFee = 0\<rparr>"

definition exampleTicks :: "int \<Rightarrow> TickData option" where
  "exampleTicks =
     Map.empty(- 60 \<mapsto> \<lparr>liquidityGross = 500, liquidityNet = - 500,
                         feeGrowthOutside0 = 0, feeGrowthOutside1 = 0\<rparr>)"

text \<open>
  The user \<open>alice\<close> owns three positions on the first ledger page and four on the page at
  the cursor \<open>b1\<close>, the last one; the user \<open>bob\<close> owns none.
\<close>

definition examplePages :: "string \<Rightarrow> string \<Rightarrow> error + OwnerPage" where
  "examplePages usr cursor =
     (if usr = ''alice'' \<and> cursor = [] then
        Inr \<lparr>results = [\<lparr>ownerPoolHash = ''poolA'',
                           tickRangeMap = [(''-60:60'', [''a1'', ''a2'']), (''0:120'', [''a3''])]\<rparr>],
             metadataBookmark = Some ''b1''\<rparr>
      else if usr = ''alice'' \<and> cursor = ''b1'' then
        Inr \<lparr>results = [\<lparr>ownerPoolHash = ''poolB'',
                           tickRangeMap = [(''-60:60'', [''b1'', ''b2'', ''b3'', ''b4''])]\<rparr>],
             metadataBookmark = None\<rparr>
      else Inr \<lparr>results = [], metadataBookmark = None\<rparr>)"

text \<open>
  Modelled from the spec: \<open>splitBookmark\<close> of \<open>./dexUtils\<close>, by the shape
  \<open><chainBookmark>|<localBookmark>\<close> of the data model, split at the first bar.
\<close>

definition exampleSplitBookmark :: "string \<Rightarrow> string \<times> string" where
  "exampleSplitBookmark b =
     (takeWhile (\<lambda>c. c \<noteq> CHR ''|'') b, drop 1 (dropWhile (\<lambda>c. c \<noteq> CHR ''|'') b))"

text \<open>
  \<open>Number\<close> on a string of decimal digits, with or without a minus sign in front; the
  empty string gives 0.
\<close>

definition exampleNumber :: "string \<Rightarrow> int" where
  "exampleNumber s =
     (if take 1 s = ''-'' then - foldl (\<lambda>n c. 10 * n + (int (of_char c) - 48)) 0 (drop 1 s)
      else foldl (\<lambda>n c. 10 * n + (int (of_char c) - 48)) 0 s)"

definition examplePositionsEnv :: PositionsEnv where
  "examplePositionsEnv =
     \<lparr>splitBookmark = exampleSplitBookmark,
      jsNumber = exampleNumber,
      getObjectsByPartialCompositeKeyWithPagination = examplePages,
      parseTickRange = (\<lambda>r. if r = ''0:120'' then Inr (0, 120) else Inr (- 60, 60)),
      getDexPosition = (\<lambda>hash upper lower pid.
         Inr \<lparr>poolHash = hash, tickUpper = upper, tickLower = lower, positionLiquidity = 10,
              positionId = pid, token0ClassKey = ''GALA'', token1ClassKey = ''USDC'',
              positionFee = 3 / 1000\<rparr>),
      fetchTokenClass = (\<lambda>(classKey, inst). Inr \<lparr>image = ''img/'' @ classKey, symbol = classKey\<rparr>),
      toFixed = (\<lambda>x. numberToString \<lfloor>x\<rfloor>)\<rparr>"

text \<open>What a call returned as the next bookmark, if it returned one.\<close>

definition returnedBookmark :: "(error + GetUserPositionsResDto) option \<Rightarrow> string option" where
  "returnedBookmark outcome =
     (case outcome of Some (Inr res) \<Rightarrow> Some (nextBookMark res) | _ \<Rightarrow> None)"

text \<open>
  An example ledger of pools by key, for a caller and a fee configuration that may be
  missing.
\<close>

definition exampleFeeEnv ::
  "string \<Rightarrow> DexProtocolFeeConfig option \<Rightarrow> (string \<Rightarrow> Pool option) FeeEnv" where
  "exampleFeeEnv caller config =
     \<lparr>callingUser = caller,
      fetchDexProtocolFeeConfig = (\<lambda>led. Inr config),
      validateTokenOrder = (\<lambda>a b. Inr (a, b)),
      INDEX_KEY = ''GCDXCHLPL'',
      feeToString = (\<lambda>f. numberToString \<lfloor>f * 10000\<rfloor>),
      createCompositeKey = (\<lambda>index parts. index @ concat (map (\<lambda>x. CHR ''/'' # x) parts)),
      getObjectByKey = (\<lambda>led key.
         case led key of None \<Rightarrow> Inl (NotFoundError ''object not found'') | Some pool \<Rightarrow> Inr pool),
      putChainObject = (\<lambda>led pool.
         Inr (led(''GCDXCHLPL/'' @ token0 pool @ ''/'' @ token1 pool @ ''/''
                    @ numberToString \<lfloor>fee pool * 10000\<rfloor> \<mapsto> pool)))\<rparr>"

definition examplePoolLedger :: "string \<Rightarrow> Pool option" where
  "examplePoolLedger = Map.empty(''GCDXCHLPL/GALA/USDC/30'' \<mapsto> examplePool 0)"

definition exampleFeeDto :: "rat \<Rightarrow> ConfigurePoolDexFeeDto" where
  "exampleFeeDto f = \<lparr>dtoToken0 = ''GALA'', dtoToken1 = ''USDC'', dtoFee = 3 / 1000, dtoProtocolFee = f\<rparr>"

text \<open>
  The example pool after a swap of 2500 has crossed the tick -60: the state at the head
  of the second iteration, and the tick records then.
\<close>

definition crossedState :: SwapState where
  "crossedState =
     \<lparr>sqrtPrice = 47 / 50, tick = - 61, liquidity = 1500, amountSpecifiedRemaining = 1500,
      amountCalculated = - 900, feeGrowthGlobalX = 3 / 40, protocolFee = 25\<rparr>"

definition crossedTicks :: "int \<Rightarrow> TickData option" where
  "crossedTicks =
     exampleTicks(- 60 \<mapsto> \<lparr>liquidityGross = 500, liquidityNet = - 500,
                              feeGrowthOutside0 = 3 / 40, feeGrowthOutside1 = 0\<rparr>)"

text \<open>
  Two properties that the imported helpers may have, stated for a direction and a kind of
  swap. The first: the tick search returns a tick in the direction of travel, at or below
  the current tick downwards, above it upwards. The second: a swap step either reaches the
  target price it is given or leaves nothing of the specified amount, once the loop has
  updated the amount and \<open>f18\<close> has truncated it.
\<close>

definition nextTickAhead :: "'l SwapEnv \<Rightarrow> bool \<Rightarrow> bool" where
  "nextTickAhead env zeroForOne \<longleftrightarrow>
     (\<forall>bm t spacing price.
        if zeroForOne then fst (nextInitialisedTickWithInSameWord env bm t spacing True price) \<le> t
        else t < fst (nextInitialisedTickWithInSameWord env bm t spacing False price))"

definition stepReachesOrExhausts :: "'l SwapEnv \<Rightarrow> bool \<Rightarrow> bool" where
  "stepReachesOrExhausts env exactInput \<longleftrightarrow>
     (\<forall>current target liq remaining feeTier price amountIn amountOut feeAmount.
        computeSwapStep env current target liq remaining feeTier
          = Inr (price, amountIn, amountOut, feeAmount) \<longrightarrow>
        price = target
        \<or> f18 env (if exactInput then remaining - (amountIn + feeAmount) else remaining + amountOut) = 0)"

text \<open>
  The example pool with a swap step that moves nothing: it returns the current price and
  zero amounts.
\<close>

definition stuckSwapEnv :: "(int \<Rightarrow> TickData option) SwapEnv" where
  "stuckSwapEnv =
     exampleSwapEnv\<lparr>computeSwapStep := (\<lambda>current target liq remaining feeTier. Inr (current, 0, 0, 0))\<rparr>"

text \<open>
  How far the tick pointer is from the end of the tick range in the direction of travel:
  the number of ticks down to \<open>MIN_TICK - 1\<close>, or up to \<open>MAX_TICK\<close>.
\<close>

definition swapMeasure :: "'l SwapEnv \<Rightarrow> bool \<Rightarrow> SwapState \<Rightarrow> nat" where
  "swapMeasure env zeroForOne state =
     (if zeroForOne then nat (tick state - MIN_TICK env + 1) else nat (MAX_TICK env - tick state))"

text \<open>The state a run of the swap loop returned, if it returned one.\<close>

definition returnedState :: "(error + (SwapState \<times> 'l)) option \<Rightarrow> SwapState option" where
  "returnedState outcome =
     (case outcome of Some (Inr (state, led)) \<Rightarrow> Some state | _ \<Rightarrow> None)"

section \<open>Facts about one iteration of the swap loop\<close>

lemma crossTick_keeps:
  assumes "crossTick env led pool z start tickNext initialised priceNext st = Inr (st', led')"
  shows "feeGrowthGlobalX st' = feeGrowthGlobalX st \<and> protocolFee st' = protocolFee st
     \<and> sqrtPrice st' = sqrtPrice st \<and> amountSpecifiedRemaining st' = amountSpecifiedRemaining st
     \<and> amountCalculated st' = amountCalculated st"
  using assms
  by (auto simp: crossTick_def Let_def split: if_splits sum.splits prod.splits)

lemma applied_fields:
  "feeGrowthGlobalX (applyFeeGrowth env f st) =
     (if liquidity st > 0 then feeGrowthGlobalX st + dividedBy env f (liquidity st) else feeGrowthGlobalX st)"
  "protocolFee (applyFeeGrowth env f st) = protocolFee st"
  "liquidity (applyFeeGrowth env f st) = liquidity st"
  "sqrtPrice (applyFeeGrowth env f st) = sqrtPrice st"
  "tick (applyFeeGrowth env f st) = tick st"
  "fst (applyProtocolFee pool fa st) = (if protocolFees pool > 0 then fa - fa * protocolFees pool else fa)"
  "protocolFee (snd (applyProtocolFee pool fa st)) =
     (if protocolFees pool > 0 then protocolFee st + fa * protocolFees pool else protocolFee st)"
  "feeGrowthGlobalX (snd (applyProtocolFee pool fa st)) = feeGrowthGlobalX st"
  "liquidity (snd (applyProtocolFee pool fa st)) = liquidity st"
  "sqrtPrice (snd (applyProtocolFee pool fa st)) = sqrtPrice st"
  "tick (snd (applyProtocolFee pool fa st)) = tick st"
  "feeGrowthGlobalX (applyAmounts ei ain aout fa st) = feeGrowthGlobalX st"
  "protocolFee (applyAmounts ei ain aout fa st) = protocolFee st"
  "liquidity (applyAmounts ei ain aout fa st) = liquidity st"
  "sqrtPrice (applyAmounts ei ain aout fa st) = sqrtPrice st"
  "tick (applyAmounts ei ain aout fa st) = tick st"
  by (simp_all add: applyFeeGrowth_def applyProtocolFee_def applyAmounts_def Let_def)

lemma swapStep_unfold:
  assumes "nextInitialisedTickWithInSameWord env (bitmap pool) (tick state) (tickSpacing pool) z (sqrtPrice state) = (tickNext, initialised)"
    and "MIN_TICK env \<le> tickNext" and "tickNext \<le> MAX_TICK env"
    and "computeSwapStep env (sqrtPrice state) (stepTarget z (tickToSqrtPrice env tickNext) sqrtPriceLimit)
           (liquidity state) (amountSpecifiedRemaining state) (fee pool) = Inr (price, amountIn, amountOut, feeAmount)"
  shows "swapStep env led state pool sqrtPriceLimit ei z =
     crossTick env led pool z (sqrtPrice state) tickNext initialised (tickToSqrtPrice env tickNext)
       (applyFeeGrowth env
          (fst (applyProtocolFee pool feeAmount (applyAmounts ei amountIn amountOut feeAmount (state\<lparr>sqrtPrice := price\<rparr>))))
          (snd (applyProtocolFee pool feeAmount (applyAmounts ei amountIn amountOut feeAmount (state\<lparr>sqrtPrice := price\<rparr>)))))"
  using assms by (simp add: swapStep_def Let_def split_beta)

lemma swapStep_Inr_obtain:
  assumes "swapStep env led state pool sqrtPriceLimit ei z = Inr (state', led')"
  obtains tickNext initialised price amountIn amountOut feeAmount where
    "nextInitialisedTickWithInSameWord env (bitmap pool) (tick state) (tickSpacing pool) z (sqrtPrice state) = (tickNext, initialised)"
    "MIN_TICK env \<le> tickNext" "tickNext \<le> MAX_TICK env"
    "computeSwapStep env (sqrtPrice state) (stepTarget z (tickToSqrtPrice env tickNext) sqrtPriceLimit)
           (liquidity state) (amountSpecifiedRemaining state) (fee pool) = Inr (price, amountIn, amountOut, feeAmount)"
proof -
  obtain tickNext initialised where n:
    "nextInitialisedTickWithInSameWord env (bitmap pool) (tick state) (tickSpacing pool) z (sqrtPrice state) = (tickNext, initialised)"
    by (cases "nextInitialisedTickWithInSameWord env (bitmap pool) (tick state) (tickSpacing pool) z (sqrtPrice state)")
  have b: "MIN_TICK env \<le> tickNext \<and> tickNext \<le> MAX_TICK env"
    using assms n by (cases "tickNext < MIN_TICK env \<or> tickNext > MAX_TICK env") (auto simp: swapStep_def)
  obtain r where "computeSwapStep env (sqrtPrice state) (stepTarget z (tickToSqrtPrice env tickNext) sqrtPriceLimit)
           (liquidity state) (amountSpecifiedRemaining state) (fee pool) = Inr r"
    using assms n b
    by (cases "computeSwapStep env (sqrtPrice state) (stepTarget z (tickToSqrtPrice env tickNext) sqrtPriceLimit)
           (liquidity state) (amountSpecifiedRemaining state) (fee pool)") (auto simp: swapStep_def Let_def)
  then show ?thesis using that n b by (cases r) auto
qed

lemma swapStep_feeGrowth:
  assumes ok: "swapStep env led state pool sqrtPriceLimit ei z = Inr (state', led')"
  shows "\<exists>feeAmount. stepFeeAmount env state pool sqrtPriceLimit z = Some feeAmount
     \<and> feeGrowthGlobalX state' = feeGrowthGlobalX state + feeGrowthAdded env pool state feeAmount
     \<and> protocolFee state' = protocolFee state + (if protocolFees pool > 0 then feeAmount * protocolFees pool else 0)"
proof -
  from ok obtain tickNext initialised price amountIn amountOut feeAmount where h:
    "nextInitialisedTickWithInSameWord env (bitmap pool) (tick state) (tickSpacing pool) z (sqrtPrice state) = (tickNext, initialised)"
    "MIN_TICK env \<le> tickNext" "tickNext \<le> MAX_TICK env"
    "computeSwapStep env (sqrtPrice state) (stepTarget z (tickToSqrtPrice env tickNext) sqrtPriceLimit)
           (liquidity state) (amountSpecifiedRemaining state) (fee pool) = Inr (price, amountIn, amountOut, feeAmount)"
    by (rule swapStep_Inr_obtain)
  have f: "stepFeeAmount env state pool sqrtPriceLimit z = Some feeAmount"
    using h by (simp add: stepFeeAmount_def)
  from ok have "crossTick env led pool z (sqrtPrice state) tickNext initialised (tickToSqrtPrice env tickNext)
       (applyFeeGrowth env
          (fst (applyProtocolFee pool feeAmount (applyAmounts ei amountIn amountOut feeAmount (state\<lparr>sqrtPrice := price\<rparr>))))
          (snd (applyProtocolFee pool feeAmount (applyAmounts ei amountIn amountOut feeAmount (state\<lparr>sqrtPrice := price\<rparr>)))))
     = Inr (state', led')"
    by (simp add: swapStep_unfold[OF h])
  from crossTick_keeps[OF this] f show ?thesis
    by (simp add: applied_fields feeGrowthAdded_def)
qed

section \<open>Facts about executions of the swap loop\<close>

lemma processSwapSteps_reaches:
  assumes "swapReaches env pool sqrtPriceLimit ei z (state0, led0) (state, led)"
  shows "processSwapSteps env led0 state0 pool sqrtPriceLimit ei z = processSwapSteps env led state pool sqrtPriceLimit ei z"
  using assms
proof (induction "(state0, led0)" "(state, led)" arbitrary: state0 led0 rule: swapReaches.induct)
  case here
  show ?case by simp
next
  case (iteration state0 led0 state' led')
  then show ?case
    by (subst processSwapSteps.simps) simp
qed

lemma processSwapSteps_returns:
  assumes "processSwapSteps env led0 state0 pool sqrtPriceLimit ei z = Some (Inr (stateF, ledF))"
  shows "swapReaches env pool sqrtPriceLimit ei z (state0, led0) (stateF, ledF) \<and> \<not> swapContinues env stateF sqrtPriceLimit"
proof -
  have "\<forall>stateF ledF. r = Inr (stateF, ledF) \<longrightarrow> swapReaches env pool sqrtPriceLimit ei z (state0, led0) (stateF, ledF) \<and> \<not> swapContinues env stateF sqrtPriceLimit"
    if "processSwapSteps env led0 state0 pool sqrtPriceLimit ei z = Some r" for r
    using that
  proof (induction rule: processSwapSteps.raw_induct[rotated 1, consumes 1])
    case (1 f env led state pool sqrtPriceLimit ei z r)
    then show ?case
      by (auto split: if_splits sum.splits intro: swapReaches.intros)
  qed
  with assms show ?thesis by blast
qed

lemma swapReaches_trans:
  assumes "swapReaches env pool sqrtPriceLimit ei z a b" and "swapReaches env pool sqrtPriceLimit ei z b (sc, lc)"
  shows "swapReaches env pool sqrtPriceLimit ei z a (sc, lc)"
  using assms
proof (induction rule: swapReaches.induct)
  case (here state led)
  then show ?case .
next
  case (iteration state led state' led' state'' led'')
  then show ?case by (blast intro: swapReaches.iteration)
qed

lemma swapReaches_before:
  assumes "swapReaches env pool sqrtPriceLimit ei z a b"
    and "swapReaches env pool sqrtPriceLimit ei z a (sc, lc)"
    and "swapContinues env (fst b) sqrtPriceLimit" and "\<not> swapContinues env sc sqrtPriceLimit"
  shows "swapReaches env pool sqrtPriceLimit ei z b (sc, lc)"
  using assms
proof (induction rule: swapReaches.induct)
  case (here state led)
  then show ?case by simp
next
  case (iteration state led state' led' state'' led'')
  from iteration.prems(1) iteration.hyps(1,2) iteration.prems(3)
  have "swapReaches env pool sqrtPriceLimit ei z (state', led') (sc, lc)"
    by (auto elim: swapReaches.cases)
  then show ?case using iteration.IH iteration.prems by blast
qed

text \<open>Along an execution the accumulator changes by what the iterations add.\<close>

lemma feeGrowth_path:
  assumes "swapReaches env pool sqrtPriceLimit ei z a b"
    and "\<And>state led feeAmount. swapReaches env pool sqrtPriceLimit ei z a (state, led) \<Longrightarrow>
           swapContinues env state sqrtPriceLimit \<Longrightarrow>
           stepFeeAmount env state pool sqrtPriceLimit z = Some feeAmount \<Longrightarrow>
           R (feeGrowthAdded env pool state feeAmount) 0"
    and "R = (=) \<or> R = (\<ge>)"
  shows "R (feeGrowthGlobalX (fst b)) (feeGrowthGlobalX (fst a))"
  using assms
proof (induction rule: swapReaches.induct)
  case (here state led)
  then show ?case by auto
next
  case (iteration state led state' led' state'' led'')
  obtain feeAmount where f: "stepFeeAmount env state pool sqrtPriceLimit z = Some feeAmount"
    "feeGrowthGlobalX state' = feeGrowthGlobalX state + feeGrowthAdded env pool state feeAmount"
    using swapStep_feeGrowth[OF iteration.hyps(2)] by blast
  have one: "R (feeGrowthAdded env pool state feeAmount) 0"
    using iteration.prems(1)[OF swapReaches.here iteration.hyps(1) f(1)] .
  have first: "swapReaches env pool sqrtPriceLimit ei z (state, led) (state', led')"
    using iteration.hyps(1,2) by (auto intro: swapReaches.intros)
  have rest: "R (feeGrowthGlobalX (fst (state'', led''))) (feeGrowthGlobalX (fst (state', led')))"
  proof (rule iteration.IH)
    fix s l fa
    assume "swapReaches env pool sqrtPriceLimit ei z (state', led') (s, l)"
      "swapContinues env s sqrtPriceLimit" "stepFeeAmount env s pool sqrtPriceLimit z = Some fa"
    then show "R (feeGrowthAdded env pool s fa) 0"
      using iteration.prems(1) swapReaches_trans[OF first] by blast
  qed (rule iteration.prems(2))
  from one rest f(2) iteration.prems(2) show ?case by auto
qed

section \<open>The example pool, run\<close>

lemmas example_defs = exampleSwapEnv_def exampleState_def examplePool_def exampleNextTick_def
      exampleSwapStep_def stepTarget_def applyAmounts_def applyProtocolFee_def applyFeeGrowth_def
      crossTick_def exampleCrossTick_def exampleTicks_def Let_def

lemma exampleF18_int: "exampleF18 (of_int n) = of_int n"
proof -
  have a: "(of_int n :: rat) * 10 ^ 18 = of_int (n * 10 ^ 18)" by simp
  have b: "- (of_int n :: rat) * 10 ^ 18 = of_int (- n * 10 ^ 18)" by simp
  show ?thesis unfolding exampleF18_def a b floor_of_int by simp
qed

lemma exampleF18_numeral [simp]: "exampleF18 (numeral k) = numeral k" "exampleF18 0 = 0"
  using exampleF18_int[of "numeral k"] exampleF18_int[of 0] by simp_all

lemma example_one_step:
  "swapStep exampleSwapEnv exampleTicks (exampleState liq 1000) (examplePool share) (9 / 10) True True
    = Inr (\<lparr>sqrtPrice = 97 / 100, tick = - 30, liquidity = liq, amountSpecifiedRemaining = 0,
             amountCalculated = - 900,
             feeGrowthGlobalX =
               (if liq > 0 then (if share > 0 then 100 - 100 * share else 100) / liq else 0),
             protocolFee = (if share > 0 then 100 * share else 0)\<rparr>, exampleTicks)"
  by (simp add: swapStep_def example_defs)

lemma example_one_step_fee:
  "stepFeeAmount exampleSwapEnv (exampleState liq 1000) (examplePool share) (9 / 10) True = Some 100"
  by (simp add: stepFeeAmount_def example_defs)

lemma example_continues:
  "swapContinues exampleSwapEnv (exampleState liq 1000) (9 / 10)"
  "swapContinues exampleSwapEnv (exampleState 1000 2500) (1 / 2)"
  by (simp_all add: swapContinues_def exampleSwapEnv_def exampleState_def)

lemma example_one_step_run:
  "processSwapSteps exampleSwapEnv exampleTicks (exampleState liq 1000) (examplePool share) (9 / 10) True True
    = Some (Inr (\<lparr>sqrtPrice = 97 / 100, tick = - 30, liquidity = liq, amountSpecifiedRemaining = 0,
             amountCalculated = - 900,
             feeGrowthGlobalX =
               (if liq > 0 then (if share > 0 then 100 - 100 * share else 100) / liq else 0),
             protocolFee = (if share > 0 then 100 * share else 0)\<rparr>, exampleTicks))"
  apply (subst processSwapSteps.simps)
  apply (simp only: example_continues if_True example_one_step sum.case prod.case)
  apply (subst processSwapSteps.simps)
  apply (simp add: swapContinues_def exampleSwapEnv_def)
  done

lemma example_crossing_step:
  "swapStep exampleSwapEnv exampleTicks (exampleState 1000 2500) (examplePool (1 / 4)) (1 / 2) True True
    = Inr (crossedState, crossedTicks)"
  by (simp add: swapStep_def example_defs crossedState_def crossedTicks_def)

lemma example_crossed_continues: "swapContinues exampleSwapEnv crossedState (1 / 2)"
  by (simp add: swapContinues_def exampleSwapEnv_def crossedState_def)

lemma example_crossed_next:
  "nextInitialisedTickWithInSameWord exampleSwapEnv (bitmap (examplePool (1 / 4))) (tick crossedState)
      (tickSpacing (examplePool (1 / 4))) True (sqrtPrice crossedState) = (- 180, False)"
  by (simp add: exampleSwapEnv_def exampleNextTick_def crossedState_def)

section \<open>The swap loop: what the specification says of it\<close>

text \<open>
  C2. Whenever an execution of \<open>processSwapSteps\<close> comes to an iteration in which
  \<open>nextInitialisedTickWithInSameWord\<close> returns a next tick below \<open>MIN_TICK\<close> or above
  \<open>MAX_TICK\<close>, that iteration throws at once, before it assigns to the state or calls
  \<open>computeSwapStep\<close> or \<open>fetchOrCreateAndCrossTick\<close>, and the call throws the Conflict error
  with the message "Not enough liquidity available in pool". The error leaves the function
  without a state; it reaches the transaction boundary, which drops what earlier
  iterations wrote, so the ledger is the one from before the call.
\<close>

theorem C2_out_of_bounds_aborts:
  assumes "swapReaches env pool sqrtPriceLimit ei z (state0, led0) (state, led)"
    and "swapContinues env state sqrtPriceLimit"
    and "nextInitialisedTickWithInSameWord env (bitmap pool) (tick state) (tickSpacing pool) z
           (sqrtPrice state) = (tickNext, initialised)"
    and "tickNext < MIN_TICK env \<or> tickNext > MAX_TICK env"
  shows "swapStep env led state pool sqrtPriceLimit ei z
           = Inl (ConflictError ''Not enough liquidity available in pool'')
     \<and> processSwapSteps env led0 state0 pool sqrtPriceLimit ei z
           = Some (Inl (ConflictError ''Not enough liquidity available in pool''))
     \<and> ledgerAfter led0 (processSwapSteps env led0 state0 pool sqrtPriceLimit ei z) = led0"
proof -
  have thrown: "swapStep env led state pool sqrtPriceLimit ei z
          = Inl (ConflictError ''Not enough liquidity available in pool'')"
    using assms(3,4) by (auto simp: swapStep_def)
  then have "processSwapSteps env led state pool sqrtPriceLimit ei z
          = Some (Inl (ConflictError ''Not enough liquidity available in pool''))"
    using assms(2) by (subst processSwapSteps.simps) simp
  then show ?thesis
    using thrown processSwapSteps_reaches[OF assms(1)] by (simp add: ledgerAfter_def)
qed

theorem C2_out_of_bounds_aborts_witness:
  "swapReaches exampleSwapEnv (examplePool (1 / 4)) (1 / 2) True True
      (exampleState 1000 2500, exampleTicks) (crossedState, crossedTicks)
   \<and> swapContinues exampleSwapEnv crossedState (1 / 2)
   \<and> fst (nextInitialisedTickWithInSameWord exampleSwapEnv (bitmap (examplePool (1 / 4))) (tick crossedState)
            (tickSpacing (examplePool (1 / 4))) True (sqrtPrice crossedState)) < MIN_TICK exampleSwapEnv
   \<and> swapStep exampleSwapEnv crossedTicks crossedState (examplePool (1 / 4)) (1 / 2) True True
        = Inl (ConflictError ''Not enough liquidity available in pool'')
   \<and> processSwapSteps exampleSwapEnv exampleTicks (exampleState 1000 2500) (examplePool (1 / 4)) (1 / 2) True True
        = Some (Inl (ConflictError ''Not enough liquidity available in pool''))
   \<and> ledgerAfter exampleTicks
        (processSwapSteps exampleSwapEnv exampleTicks (exampleState 1000 2500) (examplePool (1 / 4)) (1 / 2) True True)
        = exampleTicks"
proof -
  have r: "swapReaches exampleSwapEnv (examplePool (1 / 4)) (1 / 2) True True
      (exampleState 1000 2500, exampleTicks) (crossedState, crossedTicks)"
    by (rule swapReaches.iteration[OF example_continues(2) example_crossing_step swapReaches.here])
  have b: "- 180 < MIN_TICK exampleSwapEnv \<or> - 180 > MAX_TICK exampleSwapEnv"
    by (simp add: exampleSwapEnv_def)
  have m: "fst (nextInitialisedTickWithInSameWord exampleSwapEnv (bitmap (examplePool (1 / 4))) (tick crossedState)
            (tickSpacing (examplePool (1 / 4))) True (sqrtPrice crossedState)) < MIN_TICK exampleSwapEnv"
    unfolding example_crossed_next by (simp add: exampleSwapEnv_def)
  from C2_out_of_bounds_aborts[OF r example_crossed_continues example_crossed_next b]
  show ?thesis
    using r example_crossed_continues m by blast
qed

text \<open>
  C4, amended. When \<open>state.liquidity > 0\<close> holds in no iteration of an execution,
  \<open>feeGrowthGlobalX\<close> is at exit what it was at entry. An iteration with
  \<open>state.liquidity > 0\<close> adds the step's fee amount less the protocol's share, divided by
  the liquidity; this is 0 when the share is the whole fee or the fee is 0. So when every
  iteration adds a non-negative amount, \<open>feeGrowthGlobalX\<close> at exit is at least its value
  at entry, and it is strictly greater exactly when some iteration with
  \<open>state.liquidity > 0\<close> adds a positive amount.
\<close>

theorem C4_fee_growth:
  assumes run: "processSwapSteps env led0 state0 pool sqrtPriceLimit ei z = Some (Inr (stateF, ledF))"
  shows "((\<forall>state led. swapReaches env pool sqrtPriceLimit ei z (state0, led0) (state, led)
              \<and> swapContinues env state sqrtPriceLimit \<longrightarrow> \<not> liquidity state > 0)
          \<longrightarrow> feeGrowthGlobalX stateF = feeGrowthGlobalX state0)
     \<and> ((\<forall>state led feeAmount. swapReaches env pool sqrtPriceLimit ei z (state0, led0) (state, led)
              \<and> swapContinues env state sqrtPriceLimit
              \<and> stepFeeAmount env state pool sqrtPriceLimit z = Some feeAmount
              \<longrightarrow> 0 \<le> feeGrowthAdded env pool state feeAmount)
          \<longrightarrow> feeGrowthGlobalX state0 \<le> feeGrowthGlobalX stateF
              \<and> (feeGrowthGlobalX state0 < feeGrowthGlobalX stateF \<longleftrightarrow>
                   (\<exists>state led feeAmount. swapReaches env pool sqrtPriceLimit ei z (state0, led0) (state, led)
                      \<and> swapContinues env state sqrtPriceLimit \<and> liquidity state > 0
                      \<and> stepFeeAmount env state pool sqrtPriceLimit z = Some feeAmount
                      \<and> 0 < feeGrowthAdded env pool state feeAmount)))"
proof (intro conjI impI)
  from processSwapSteps_returns[OF run]
  have path: "swapReaches env pool sqrtPriceLimit ei z (state0, led0) (stateF, ledF)"
    and stop: "\<not> swapContinues env stateF sqrtPriceLimit" by simp_all
  {
    assume dry: "\<forall>state led. swapReaches env pool sqrtPriceLimit ei z (state0, led0) (state, led)
              \<and> swapContinues env state sqrtPriceLimit \<longrightarrow> \<not> liquidity state > 0"
    have "(=) (feeGrowthGlobalX (fst (stateF, ledF))) (feeGrowthGlobalX (fst (state0, led0)))"
    proof (rule feeGrowth_path[OF path])
      fix state led feeAmount
      assume "swapReaches env pool sqrtPriceLimit ei z (state0, led0) (state, led)"
        "swapContinues env state sqrtPriceLimit"
      with dry have "\<not> liquidity state > 0" by blast
      then show "feeGrowthAdded env pool state feeAmount = 0" by (simp add: feeGrowthAdded_def)
    qed simp
    then show "feeGrowthGlobalX stateF = feeGrowthGlobalX state0" by simp
  }
  assume nonneg: "\<forall>state led feeAmount. swapReaches env pool sqrtPriceLimit ei z (state0, led0) (state, led)
              \<and> swapContinues env state sqrtPriceLimit
              \<and> stepFeeAmount env state pool sqrtPriceLimit z = Some feeAmount
              \<longrightarrow> 0 \<le> feeGrowthAdded env pool state feeAmount"
  have mono: "feeGrowthGlobalX (fst a) \<le> feeGrowthGlobalX (fst b)"
    if "swapReaches env pool sqrtPriceLimit ei z (state0, led0) a"
      and "swapReaches env pool sqrtPriceLimit ei z a b" for a b
  proof -
    have "(\<ge>) (feeGrowthGlobalX (fst b)) (feeGrowthGlobalX (fst a))"
    proof (rule feeGrowth_path[OF that(2)])
      fix state led feeAmount
      assume "swapReaches env pool sqrtPriceLimit ei z a (state, led)"
        "swapContinues env state sqrtPriceLimit"
        "stepFeeAmount env state pool sqrtPriceLimit z = Some feeAmount"
      with nonneg swapReaches_trans[OF that(1)]
      show "feeGrowthAdded env pool state feeAmount \<ge> 0" by blast
    qed simp
    then show ?thesis by simp
  qed
  from mono[OF swapReaches.here path]
  show "feeGrowthGlobalX state0 \<le> feeGrowthGlobalX stateF" by simp
  show "feeGrowthGlobalX state0 < feeGrowthGlobalX stateF \<longleftrightarrow>
          (\<exists>state led feeAmount. swapReaches env pool sqrtPriceLimit ei z (state0, led0) (state, led)
             \<and> swapContinues env state sqrtPriceLimit \<and> liquidity state > 0
             \<and> stepFeeAmount env state pool sqrtPriceLimit z = Some feeAmount
             \<and> 0 < feeGrowthAdded env pool state feeAmount)" (is "?L \<longleftrightarrow> ?R")
  proof
    assume ?L
    show ?R
    proof (rule ccontr)
      assume none: "\<not> ?R"
      have "(=) (feeGrowthGlobalX (fst (stateF, ledF))) (feeGrowthGlobalX (fst (state0, led0)))"
      proof (rule feeGrowth_path[OF path])
        fix state led feeAmount
        assume h: "swapReaches env pool sqrtPriceLimit ei z (state0, led0) (state, led)"
          "swapContinues env state sqrtPriceLimit"
          "stepFeeAmount env state pool sqrtPriceLimit z = Some feeAmount"
        with nonneg have "0 \<le> feeGrowthAdded env pool state feeAmount" by blast
        moreover have "\<not> (liquidity state > 0 \<and> 0 < feeGrowthAdded env pool state feeAmount)"
          using none h by blast
        moreover have "\<not> liquidity state > 0 \<Longrightarrow> feeGrowthAdded env pool state feeAmount = 0"
          by (simp add: feeGrowthAdded_def)
        ultimately show "feeGrowthAdded env pool state feeAmount = 0" by force
      qed simp
      with \<open>?L\<close> show False by simp
    qed
  next
    assume ?R
    then obtain state led feeAmount where
      r: "swapReaches env pool sqrtPriceLimit ei z (state0, led0) (state, led)"
      and c: "swapContinues env state sqrtPriceLimit"
      and f: "stepFeeAmount env state pool sqrtPriceLimit z = Some feeAmount"
      and pos: "0 < feeGrowthAdded env pool state feeAmount" by blast
    have "swapReaches env pool sqrtPriceLimit ei z (state, led) (stateF, ledF)"
      using swapReaches_before[OF r path] c stop by simp
    then obtain state' led' where
      s: "swapStep env led state pool sqrtPriceLimit ei z = Inr (state', led')"
      and rest: "swapReaches env pool sqrtPriceLimit ei z (state', led') (stateF, ledF)"
      using c stop by (auto elim: swapReaches.cases)
    have one: "swapReaches env pool sqrtPriceLimit ei z (state, led) (state', led')"
      using c s by (auto intro: swapReaches.intros)
    from swapStep_feeGrowth[OF s] f
    have "feeGrowthGlobalX state' = feeGrowthGlobalX state + feeGrowthAdded env pool state feeAmount"
      by auto
    with pos have "feeGrowthGlobalX state < feeGrowthGlobalX state'" by simp
    moreover from mono[OF swapReaches.here r] have "feeGrowthGlobalX state0 \<le> feeGrowthGlobalX state" by simp
    moreover from mono[OF swapReaches_trans[OF r one] rest]
    have "feeGrowthGlobalX state' \<le> feeGrowthGlobalX stateF" by simp
    ultimately show ?L by simp
  qed
qed

theorem C4_fee_growth_witness:
  "processSwapSteps exampleSwapEnv exampleTicks (exampleState 1000 1000) (examplePool (1 / 4)) (9 / 10) True True
     = Some (Inr (\<lparr>sqrtPrice = 97 / 100, tick = - 30, liquidity = 1000, amountSpecifiedRemaining = 0,
             amountCalculated = - 900, feeGrowthGlobalX = 3 / 40, protocolFee = 25\<rparr>, exampleTicks))
   \<and> feeGrowthGlobalX (exampleState 1000 1000) < 3 / 40
   \<and> processSwapSteps exampleSwapEnv exampleTicks (exampleState 0 1000) (examplePool (1 / 4)) (9 / 10) True True
     = Some (Inr (\<lparr>sqrtPrice = 97 / 100, tick = - 30, liquidity = 0, amountSpecifiedRemaining = 0,
             amountCalculated = - 900, feeGrowthGlobalX = 0, protocolFee = 25\<rparr>, exampleTicks))
   \<and> feeGrowthGlobalX (exampleState 0 1000) = 0"
proof -
  let ?pool = "examplePool (1 / 4)"
  let ?s0 = "exampleState 1000 1000"
  let ?sF = "\<lparr>sqrtPrice = 97 / 100, tick = - 30, liquidity = 1000, amountSpecifiedRemaining = 0,
             amountCalculated = - 900, feeGrowthGlobalX = 3 / 40, protocolFee = 25\<rparr>"
  let ?d0 = "exampleState 0 1000"
  let ?dF = "\<lparr>sqrtPrice = 97 / 100, tick = - 30, liquidity = 0, amountSpecifiedRemaining = 0,
             amountCalculated = - 900, feeGrowthGlobalX = 0, protocolFee = 25\<rparr>"
  have run: "processSwapSteps exampleSwapEnv exampleTicks ?s0 ?pool (9 / 10) True True = Some (Inr (?sF, exampleTicks))"
    using example_one_step_run[of 1000 "1 / 4"] by simp
  have fee: "stepFeeAmount exampleSwapEnv state ?pool lim True = Some fa \<Longrightarrow> fa = 100" for state lim fa
    by (auto simp: stepFeeAmount_def example_defs split: if_splits)
  have added: "0 \<le> feeGrowthAdded exampleSwapEnv ?pool state 100" for state
    by (simp add: feeGrowthAdded_def exampleSwapEnv_def examplePool_def)
  have nonneg: "\<forall>state led feeAmount. swapReaches exampleSwapEnv ?pool (9 / 10) True True (?s0, exampleTicks) (state, led)
              \<and> swapContinues exampleSwapEnv state (9 / 10)
              \<and> stepFeeAmount exampleSwapEnv state ?pool (9 / 10) True = Some feeAmount
              \<longrightarrow> 0 \<le> feeGrowthAdded exampleSwapEnv ?pool state feeAmount"
    using fee added by blast
  have "liquidity ?s0 > 0 \<and> 0 < feeGrowthAdded exampleSwapEnv ?pool ?s0 100"
    by (simp add: feeGrowthAdded_def exampleSwapEnv_def examplePool_def exampleState_def)
  then have pos: "\<exists>state led feeAmount. swapReaches exampleSwapEnv ?pool (9 / 10) True True (?s0, exampleTicks) (state, led)
                      \<and> swapContinues exampleSwapEnv state (9 / 10) \<and> liquidity state > 0
                      \<and> stepFeeAmount exampleSwapEnv state ?pool (9 / 10) True = Some feeAmount
                      \<and> 0 < feeGrowthAdded exampleSwapEnv ?pool state feeAmount"
    using example_continues(1)[of 1000] example_one_step_fee[of 1000 "1 / 4"]
      swapReaches.here[of exampleSwapEnv ?pool "9 / 10" True True ?s0 exampleTicks]
    by (intro exI[of _ ?s0] exI[of _ exampleTicks] exI[of _ 100]) simp
  from C4_fee_growth[OF run] nonneg pos
  have wet: "feeGrowthGlobalX ?s0 < feeGrowthGlobalX ?sF" by blast
  have dry_run: "processSwapSteps exampleSwapEnv exampleTicks ?d0 ?pool (9 / 10) True True = Some (Inr (?dF, exampleTicks))"
    using example_one_step_run[of 0 "1 / 4"] by simp
  have stopped: "\<not> swapContinues exampleSwapEnv ?dF (9 / 10)"
    by (simp add: swapContinues_def exampleSwapEnv_def)
  have dry: "\<forall>state led. swapReaches exampleSwapEnv ?pool (9 / 10) True True (?d0, exampleTicks) (state, led)
              \<and> swapContinues exampleSwapEnv state (9 / 10) \<longrightarrow> \<not> liquidity state > 0"
  proof (intro allI impI, elim conjE)
    fix state led
    assume r: "swapReaches exampleSwapEnv ?pool (9 / 10) True True (?d0, exampleTicks) (state, led)"
      and c: "swapContinues exampleSwapEnv state (9 / 10)"
    from r have "state = ?d0 \<or> swapReaches exampleSwapEnv ?pool (9 / 10) True True (?dF, exampleTicks) (state, led)"
      using example_one_step[of 0 "1 / 4"] by (auto elim: swapReaches.cases)
    then have "state = ?d0 \<or> state = ?dF"
      using stopped by (auto elim: swapReaches.cases)
    with c stopped show "\<not> liquidity state > 0" by (auto simp: exampleState_def)
  qed
  from C4_fee_growth[OF dry_run] dry
  have "feeGrowthGlobalX ?dF = feeGrowthGlobalX ?d0" by blast
  with wet run dry_run show ?thesis by simp
qed

text \<open>
  The claim as the specification states it fails in the example pool with
  \<open>protocolFees = 1\<close>: the one iteration of the swap runs with liquidity 1000, and
  \<open>feeGrowthGlobalX\<close> is unchanged at exit.
\<close>

theorem C4_fee_growth_counterexample:
  "swapContinues exampleSwapEnv (exampleState 1000 1000) (9 / 10)
   \<and> liquidity (exampleState 1000 1000) > 0
   \<and> map_option feeGrowthGlobalX (returnedState
        (processSwapSteps exampleSwapEnv exampleTicks (exampleState 1000 1000) (examplePool 1) (9 / 10) True True))
       = Some (feeGrowthGlobalX (exampleState 1000 1000))"
  using example_continues(1)
  by (simp add: example_one_step_run returnedState_def) (simp add: exampleState_def)

text \<open>
  C5. In an iteration with \<open>pool.protocolFees > 0\<close> that returns, exactly
  \<open>delta = feeAmount * pool.protocolFees\<close> is added to \<open>state.protocolFee\<close>, and the fee
  growth is computed from \<open>feeAmount - delta\<close>, under the guard \<open>state.liquidity > 0\<close> of
  line 126. For \<open>feeAmount = 100\<close> and \<open>protocolFees = 0.25\<close>, \<open>state.protocolFee\<close> grows by
  25 and, with positive liquidity, \<open>state.feeGrowthGlobalX\<close> by \<open>dividedBy\<close> of 75 and the
  liquidity.
\<close>

theorem C5_protocol_fee_share:
  assumes fee: "stepFeeAmount env state pool sqrtPriceLimit z = Some feeAmount"
    and ok: "swapStep env led state pool sqrtPriceLimit ei z = Inr (state', led')"
    and share: "protocolFees pool > 0"
  shows "protocolFee state' = protocolFee state + feeAmount * protocolFees pool
     \<and> feeGrowthGlobalX state' =
         (if liquidity state > 0
          then feeGrowthGlobalX state
                 + dividedBy env (feeAmount - feeAmount * protocolFees pool) (liquidity state)
          else feeGrowthGlobalX state)
     \<and> (feeAmount = 100 \<and> protocolFees pool = 1 / 4 \<longrightarrow>
          protocolFee state' = protocolFee state + 25
          \<and> (liquidity state > 0 \<longrightarrow>
               feeGrowthGlobalX state' = feeGrowthGlobalX state + dividedBy env 75 (liquidity state)))"
proof -
  from swapStep_feeGrowth[OF ok] fee share
  have p: "protocolFee state' = protocolFee state + feeAmount * protocolFees pool"
    and g: "feeGrowthGlobalX state' = feeGrowthGlobalX state + feeGrowthAdded env pool state feeAmount"
    by auto
  have g': "feeGrowthGlobalX state' =
         (if liquidity state > 0
          then feeGrowthGlobalX state
                 + dividedBy env (feeAmount - feeAmount * protocolFees pool) (liquidity state)
          else feeGrowthGlobalX state)"
    using g share by (simp add: feeGrowthAdded_def)
  have scenario: "feeAmount = 100 \<and> protocolFees pool = 1 / 4 \<longrightarrow>
          protocolFee state' = protocolFee state + 25
          \<and> (liquidity state > 0 \<longrightarrow>
               feeGrowthGlobalX state' = feeGrowthGlobalX state + dividedBy env 75 (liquidity state))"
  proof (intro impI conjI)
    assume h: "feeAmount = 100 \<and> protocolFees pool = 1 / 4"
    then have e: "feeAmount * protocolFees pool = 25" "feeAmount - feeAmount * protocolFees pool = 75"
      by simp_all
    show "protocolFee state' = protocolFee state + 25"
      unfolding p e ..
    assume "liquidity state > 0"
    then show "feeGrowthGlobalX state' = feeGrowthGlobalX state + dividedBy env 75 (liquidity state)"
      using g' e(2) by simp
  qed
  from p g' scenario show ?thesis by (intro conjI)
qed

theorem C5_protocol_fee_share_witness:
  "stepFeeAmount exampleSwapEnv (exampleState 1000 1000) (examplePool (1 / 4)) (9 / 10) True = Some 100
   \<and> protocolFees (examplePool (1 / 4)) = 1 / 4
   \<and> liquidity (exampleState 1000 1000) = 1000
   \<and> swapStep exampleSwapEnv exampleTicks (exampleState 1000 1000) (examplePool (1 / 4)) (9 / 10) True True
       = Inr (\<lparr>sqrtPrice = 97 / 100, tick = - 30, liquidity = 1000, amountSpecifiedRemaining = 0,
               amountCalculated = - 900, feeGrowthGlobalX = 3 / 40, protocolFee = 25\<rparr>, exampleTicks)
   \<and> (25 :: rat) = protocolFee (exampleState 1000 1000) + 25
   \<and> (3 / 40 :: rat) = feeGrowthGlobalX (exampleState 1000 1000) + dividedBy exampleSwapEnv 75 1000"
proof -
  let ?sF = "\<lparr>sqrtPrice = 97 / 100, tick = - 30, liquidity = 1000, amountSpecifiedRemaining = 0,
               amountCalculated = - 900, feeGrowthGlobalX = 3 / 40, protocolFee = 25\<rparr>"
  have step: "swapStep exampleSwapEnv exampleTicks (exampleState 1000 1000) (examplePool (1 / 4)) (9 / 10) True True
       = Inr (?sF, exampleTicks)"
    using example_one_step[of 1000 "1 / 4"] by simp
  have share: "protocolFees (examplePool (1 / 4)) > 0" "protocolFees (examplePool (1 / 4)) = 1 / 4"
    by (simp_all add: examplePool_def)
  have liq: "liquidity (exampleState 1000 1000) = 1000" "liquidity (exampleState 1000 1000) > 0"
    by (simp_all add: exampleState_def)
  from C5_protocol_fee_share[OF example_one_step_fee step share(1)] share(2) liq(2)
  have "protocolFee ?sF = protocolFee (exampleState 1000 1000) + 25
      \<and> feeGrowthGlobalX ?sF = feeGrowthGlobalX (exampleState 1000 1000)
           + dividedBy exampleSwapEnv 75 (liquidity (exampleState 1000 1000))"
    by blast
  then show ?thesis
    using example_one_step_fee[of 1000 "1 / 4"] share(2) liq(1) step by simp
qed

text \<open>
  C6. In an iteration whose step price equals the next tick's price: when the tick is
  initialised, \<open>fetchOrCreateAndCrossTick\<close> is called on that tick with the fee growth
  arguments \<open>(state.feeGrowthGlobalX, pool.feeGrowthGlobal1)\<close> if \<open>zeroForOne\<close> and
  \<open>(pool.feeGrowthGlobal0, state.feeGrowthGlobalX)\<close> otherwise, where
  \<open>state.feeGrowthGlobalX\<close> is the value \<open>G\<close> this iteration has just given it; its error is
  the iteration's error, and the net liquidity it returns is added to \<open>state.liquidity\<close>,
  negated exactly when \<open>zeroForOne\<close>. Initialised or not, \<open>state.tick\<close> becomes
  \<open>tickNext - 1\<close> when \<open>zeroForOne\<close> and \<open>tickNext\<close> otherwise; a tick that is not initialised
  leaves liquidity and ledger as they are.
\<close>

theorem C6_tick_crossing:
  assumes nxt: "nextInitialisedTickWithInSameWord env (bitmap pool) (tick state) (tickSpacing pool) z
                   (sqrtPrice state) = (tickNext, initialised)"
    and inside: "MIN_TICK env \<le> tickNext" "tickNext \<le> MAX_TICK env"
    and step: "computeSwapStep env (sqrtPrice state)
                 (stepTarget z (tickToSqrtPrice env tickNext) sqrtPriceLimit)
                 (liquidity state) (amountSpecifiedRemaining state) (fee pool)
               = Inr (price, amountIn, amountOut, feeAmount)"
    and reached: "price = tickToSqrtPrice env tickNext"
    and growth: "G = feeGrowthGlobalX state + feeGrowthAdded env pool state feeAmount"
  shows "(initialised \<longrightarrow>
            (\<forall>e. fetchOrCreateAndCrossTick env led (genPoolHash env pool) tickNext
                    (if z then G else feeGrowthGlobal0 pool) (if z then feeGrowthGlobal1 pool else G) = Inl e
                 \<longrightarrow> swapStep env led state pool sqrtPriceLimit ei z = Inl e)
          \<and> (\<forall>liquidityNet led'.
                 fetchOrCreateAndCrossTick env led (genPoolHash env pool) tickNext
                    (if z then G else feeGrowthGlobal0 pool) (if z then feeGrowthGlobal1 pool else G)
                   = Inr (liquidityNet, led')
                 \<longrightarrow> (\<exists>state'. swapStep env led state pool sqrtPriceLimit ei z = Inr (state', led')
                        \<and> feeGrowthGlobalX state' = G
                        \<and> liquidity state' = liquidity state + (if z then - liquidityNet else liquidityNet)
                        \<and> tick state' = (if z then tickNext - 1 else tickNext))))
     \<and> (\<not> initialised \<longrightarrow>
            (\<exists>state'. swapStep env led state pool sqrtPriceLimit ei z = Inr (state', led)
               \<and> liquidity state' = liquidity state
               \<and> tick state' = (if z then tickNext - 1 else tickNext)))"
proof -
  let ?st = "applyFeeGrowth env
          (fst (applyProtocolFee pool feeAmount (applyAmounts ei amountIn amountOut feeAmount (state\<lparr>sqrtPrice := price\<rparr>))))
          (snd (applyProtocolFee pool feeAmount (applyAmounts ei amountIn amountOut feeAmount (state\<lparr>sqrtPrice := price\<rparr>))))"
  have u: "swapStep env led state pool sqrtPriceLimit ei z =
     crossTick env led pool z (sqrtPrice state) tickNext initialised (tickToSqrtPrice env tickNext) ?st"
    by (rule swapStep_unfold[OF nxt inside step])
  have f: "feeGrowthGlobalX ?st = G" "liquidity ?st = liquidity state" "sqrtPrice ?st = tickToSqrtPrice env tickNext"
    using growth reached by (simp_all add: applied_fields feeGrowthAdded_def)
  show ?thesis
    unfolding u crossTick_def f by (auto simp: f Let_def)
qed

theorem C6_tick_crossing_witness:
  "nextInitialisedTickWithInSameWord exampleSwapEnv (bitmap (examplePool (1 / 4))) (tick (exampleState 1000 2500))
      (tickSpacing (examplePool (1 / 4))) True (sqrtPrice (exampleState 1000 2500)) = (- 60, True)
   \<and> fetchOrCreateAndCrossTick exampleSwapEnv exampleTicks (genPoolHash exampleSwapEnv (examplePool (1 / 4)))
        (- 60) (3 / 40) (feeGrowthGlobal1 (examplePool (1 / 4))) = Inr (- 500, crossedTicks)
   \<and> (\<exists>state'. swapStep exampleSwapEnv exampleTicks (exampleState 1000 2500) (examplePool (1 / 4)) (1 / 2) True True
                  = Inr (state', crossedTicks)
         \<and> feeGrowthGlobalX state' = 3 / 40 \<and> liquidity state' = 1000 + 500 \<and> tick state' = - 61)
   \<and> nextInitialisedTickWithInSameWord exampleSwapEnv (bitmap (examplePool (1 / 4))) (tick (exampleState 1000 2500))
      (tickSpacing (examplePool (1 / 4))) False (sqrtPrice (exampleState 1000 2500)) = (120, False)
   \<and> (\<exists>state'. swapStep exampleSwapEnv exampleTicks (exampleState 1000 2500) (examplePool (1 / 4)) 2 True False
                  = Inr (state', exampleTicks)
         \<and> liquidity state' = 1000 \<and> tick state' = 120)"
proof -
  let ?env = "exampleSwapEnv" and ?pool = "examplePool (1 / 4)" and ?s = "exampleState 1000 2500"
  have n1: "nextInitialisedTickWithInSameWord ?env (bitmap ?pool) (tick ?s) (tickSpacing ?pool) True (sqrtPrice ?s)
              = (- 60, True)"
    and n2: "nextInitialisedTickWithInSameWord ?env (bitmap ?pool) (tick ?s) (tickSpacing ?pool) False (sqrtPrice ?s)
              = (120, False)"
    by (simp_all add: exampleSwapEnv_def exampleNextTick_def exampleState_def)
  have b: "MIN_TICK ?env \<le> - 60" "- 60 \<le> MAX_TICK ?env" "MIN_TICK ?env \<le> 120" "120 \<le> MAX_TICK ?env"
    by (simp_all add: exampleSwapEnv_def)
  have c1: "computeSwapStep ?env (sqrtPrice ?s) (stepTarget True (tickToSqrtPrice ?env (- 60)) (1 / 2))
              (liquidity ?s) (amountSpecifiedRemaining ?s) (fee ?pool) = Inr (47 / 50, 900, 900, 100)"
    and c2: "computeSwapStep ?env (sqrtPrice ?s) (stepTarget False (tickToSqrtPrice ?env 120) 2)
              (liquidity ?s) (amountSpecifiedRemaining ?s) (fee ?pool) = Inr (28 / 25, 900, 900, 100)"
    by (simp_all add: exampleSwapEnv_def exampleSwapStep_def exampleState_def stepTarget_def)
  have p: "47 / 50 = tickToSqrtPrice ?env (- 60)" "28 / 25 = tickToSqrtPrice ?env 120"
    by (simp_all add: exampleSwapEnv_def)
  have g: "3 / 40 = feeGrowthGlobalX ?s + feeGrowthAdded ?env ?pool ?s 100"
    by (simp add: feeGrowthAdded_def exampleSwapEnv_def examplePool_def exampleState_def)
  have x: "fetchOrCreateAndCrossTick ?env exampleTicks (genPoolHash ?env ?pool) (- 60) (3 / 40)
             (feeGrowthGlobal1 ?pool) = Inr (- 500, crossedTicks)"
    by (simp add: exampleSwapEnv_def exampleCrossTick_def exampleTicks_def crossedTicks_def examplePool_def)
  have l: "liquidity ?s = 1000"
    by (simp add: exampleState_def)
  from C6_tick_crossing[OF n1 b(1,2) c1 p(1) g, of exampleTicks True] x l
  have first: "\<exists>state'. swapStep ?env exampleTicks ?s ?pool (1 / 2) True True = Inr (state', crossedTicks)
         \<and> feeGrowthGlobalX state' = 3 / 40 \<and> liquidity state' = 1000 + 500 \<and> tick state' = - 61"
    by simp
  from C6_tick_crossing[OF n2 b(3,4) c2 p(2) refl, of exampleTicks True] l
  have second: "\<exists>state'. swapStep ?env exampleTicks ?s ?pool 2 True False = Inr (state', exampleTicks)
         \<and> liquidity state' = 1000 \<and> tick state' = 120"
    by simp
  from n1 x first n2 second show ?thesis by (intro conjI)
qed

section \<open>Facts about the paging loop\<close>

lemma fetchSelected_keeps:
  assumes "fetchSelected env len idx xs st = Inr st'"
  shows "newLocalBookmark st' = newLocalBookmark st \<and> positionsToSkip st' = positionsToSkip st
     \<and> currentPageBookmark st' = currentPageBookmark st"
  using assms
proof (induction xs arbitrary: idx st)
  case Nil
  then show ?case by simp
next
  case (Cons x xs)
  obtain h r p where x: "x = (h, r, p)" by (cases x)
  from Cons.prems obtain lo up position where
    "parseTickRange env r = Inr (lo, up)" "getDexPosition env h up lo p = Inr position"
    unfolding x by (auto split: sum.splits)
  with Cons.prems Cons.IH show ?case
    unfolding x by (auto simp: Let_def split: if_splits)
qed

lemma fetchSelected_error:
  assumes "fetchSelected env len idx xs st = Inl e"
  shows "(\<exists>r. parseTickRange env r = Inl e) \<or> (\<exists>h up lo p. getDexPosition env h up lo p = Inl e)"
  using assms
proof (induction xs arbitrary: idx st)
  case Nil
  then show ?case by simp
next
  case (Cons x xs)
  obtain h r p where x: "x = (h, r, p)" by (cases x)
  show ?case
  proof (cases "parseTickRange env r")
    case (Inl a)
    with Cons.prems show ?thesis unfolding x by auto
  next
    case (Inr b)
    obtain lo up where b: "b = (lo, up)" by (cases b)
    show ?thesis
    proof (cases "getDexPosition env h up lo p")
      case (Inl a)
      with Cons.prems Inr b show ?thesis unfolding x by auto
    next
      case pos: (Inr position)
      with Cons.prems Inr b Cons.IH show ?thesis
        unfolding x by (auto simp: Let_def split: if_splits)
    qed
  qed
qed

lemma pagingStep_error:
  assumes "pagingStep env usr st = Inl e"
  shows "(\<exists>b. getObjectsByPartialCompositeKeyWithPagination env usr b = Inl e)
     \<or> (\<exists>r. parseTickRange env r = Inl e) \<or> (\<exists>h up lo p. getDexPosition env h up lo p = Inl e)"
proof (cases "getObjectsByPartialCompositeKeyWithPagination env usr (currentPageBookmark st)")
  case (Inl a)
  with assms show ?thesis by (auto simp: pagingStep_def)
next
  case (Inr pg)
  with assms fetchSelected_error show ?thesis
    by (auto simp: pagingStep_def Let_def split: if_splits sum.splits)
qed

lemma pagingStep_newLocal:
  assumes "pagingStep env usr st = Inr (st', broke)"
  shows "newLocalBookmark st' = positionsToSkip st + positionsRequired st"
proof (cases "getObjectsByPartialCompositeKeyWithPagination env usr (currentPageBookmark st)")
  case (Inl a)
  with assms show ?thesis by (simp add: pagingStep_def)
next
  case (Inr pg)
  with assms show ?thesis
    by (auto simp: pagingStep_def Let_def split: if_splits sum.splits dest!: fetchSelected_keeps)
qed

lemma pagingLoop_reaches:
  assumes "pagingReaches env usr st0 st"
  shows "pagingLoop env usr st0 = pagingLoop env usr st"
  using assms
proof (induction rule: pagingReaches.induct)
  case (start st)
  show ?case ..
next
  case (pass st st' st'')
  then show ?case by (subst pagingLoop.simps) simp
qed

lemma pagingReaches_trans:
  assumes "pagingReaches env usr a b" and "pagingReaches env usr b c"
  shows "pagingReaches env usr a c"
  using assms
proof (induction rule: pagingReaches.induct)
  case (start st)
  then show ?case .
next
  case (pass st st' st'')
  then show ?case by (blast intro: pagingReaches.pass)
qed

lemma pagingLoop_last_pass:
  assumes "pagingLoop env usr st0 = Some r"
  shows "(\<forall>e. r = Inl e \<longrightarrow> (\<exists>st. pagingReaches env usr st0 st \<and> pagingStep env usr st = Inl e))
     \<and> (\<forall>stF. r = Inr stF \<longrightarrow>
           (\<exists>st broke. pagingReaches env usr st0 st \<and> pagingStep env usr st = Inr (stF, broke)
              \<and> (broke \<or> \<not> pagingContinues stF)))"
  using assms
proof (induction rule: pagingLoop.raw_induct[rotated 1, consumes 1])
  case (1 f env usr st r)
  show ?case
  proof (cases "pagingStep env usr st")
    case (Inl e)
    with 1(2) have "r = Inl e" by simp
    with Inl pagingReaches.start[of env usr st] show ?thesis by auto
  next
    case (Inr p)
    obtain st' broke where p: "p = (st', broke)" by (cases p)
    show ?thesis
    proof (cases "\<not> broke \<and> pagingContinues st'")
      case True
      with 1(2) Inr p have "f env usr st' = Some r" by simp
      from 1(1)[OF this] have
        ih: "(\<forall>e. r = Inl e \<longrightarrow> (\<exists>s. pagingReaches env usr st' s \<and> pagingStep env usr s = Inl e))
           \<and> (\<forall>stF. r = Inr stF \<longrightarrow>
                 (\<exists>s broke. pagingReaches env usr st' s \<and> pagingStep env usr s = Inr (stF, broke)
                    \<and> (broke \<or> \<not> pagingContinues stF)))" .
      have step: "pagingReaches env usr st' s \<Longrightarrow> pagingReaches env usr st s" for s
        using Inr p True by (auto intro: pagingReaches.pass)
      from ih step show ?thesis by blast
    next
      case False
      with 1(2) Inr p have "r = Inr st'" by auto
      with Inr p False pagingReaches.start[of env usr st] show ?thesis by auto
    qed
  qed
qed

lemma pagingLoop_returns:
  assumes "pagingLoop env usr st0 = Some (Inr stF)"
  shows "\<exists>st broke. pagingReaches env usr st0 st \<and> pagingStep env usr st = Inr (stF, broke)
           \<and> (broke \<or> \<not> pagingContinues stF)"
  using pagingLoop_last_pass[OF assms] by simp

lemma pagingLoop_throws:
  assumes "pagingLoop env usr st0 = Some (Inl e)"
  shows "\<exists>st. pagingReaches env usr st0 st \<and> pagingStep env usr st = Inl e"
  using pagingLoop_last_pass[OF assms] by simp

lemma pagingStep_cases [consumes 1, case_names emptyNext emptyLast skip consume]:
  assumes "pagingStep env usr st = Inr (st', broke)"
  obtains
    pg b where "getObjectsByPartialCompositeKeyWithPagination env usr (currentPageBookmark st) = Inr pg"
      "flattenOwners (results pg) = []" "metadataBookmark pg = Some b" "b \<noteq> []" "\<not> broke"
      "st' = st\<lparr>newLocalBookmark := positionsToSkip st + positionsRequired st, currentPageBookmark := b\<rparr>"
  | pg where "getObjectsByPartialCompositeKeyWithPagination env usr (currentPageBookmark st) = Inr pg"
      "flattenOwners (results pg) = []" "metadataBookmark pg = None \<or> metadataBookmark pg = Some []" "broke"
      "st' = st\<lparr>newLocalBookmark := positionsToSkip st + positionsRequired st,
                 isLastIteration := True, currentPageBookmark := []\<rparr>"
  | pg where "getObjectsByPartialCompositeKeyWithPagination env usr (currentPageBookmark st) = Inr pg"
      "flattenOwners (results pg) \<noteq> []" "positionsToSkip st \<ge> int (length (flattenOwners (results pg)))"
      "\<not> broke"
      "st' = st\<lparr>newLocalBookmark := positionsToSkip st + positionsRequired st,
                 positionsToSkip := positionsToSkip st - int (length (flattenOwners (results pg))),
                 currentPageBookmark := (case metadataBookmark pg of None \<Rightarrow> [] | Some b \<Rightarrow> b)\<rparr>"
  | pg st3 where "getObjectsByPartialCompositeKeyWithPagination env usr (currentPageBookmark st) = Inr pg"
      "flattenOwners (results pg) \<noteq> []" "positionsToSkip st < int (length (flattenOwners (results pg)))"
      "\<not> broke"
      "fetchSelected env (length (jsSlice (flattenOwners (results pg)) (positionsToSkip st))) 0
         (jsSlice (flattenOwners (results pg)) (positionsToSkip st))
         (st\<lparr>newLocalBookmark := positionsToSkip st + positionsRequired st, positionsToSkip := 0\<rparr>) = Inr st3"
      "st' = st3\<lparr>currentPageBookmark :=
                    (if isLastIteration st3 then (case metadataBookmark pg of None \<Rightarrow> [] | Some b \<Rightarrow> b)
                     else currentPageBookmark st3)\<rparr>"
proof (cases "getObjectsByPartialCompositeKeyWithPagination env usr (currentPageBookmark st)")
  case (Inl a)
  with assms show ?thesis by (simp add: pagingStep_def)
next
  case (Inr pg)
  show ?thesis
  proof (cases "flattenOwners (results pg) = []")
    case True
    show ?thesis
    proof (cases "metadataBookmark pg = None \<or> metadataBookmark pg = Some []")
      case True
      with assms Inr \<open>flattenOwners (results pg) = []\<close> that(2)[of pg] show ?thesis
        by (auto simp: pagingStep_def Let_def)
    next
      case False
      then obtain b where "metadataBookmark pg = Some b" "b \<noteq> []" by auto
      with assms Inr \<open>flattenOwners (results pg) = []\<close> that(1)[of pg b] show ?thesis
        by (auto simp: pagingStep_def Let_def)
    qed
  next
    case False
    show ?thesis
    proof (cases "positionsToSkip st \<ge> int (length (flattenOwners (results pg)))")
      case True
      with assms Inr False that(3)[of pg] show ?thesis
        by (auto simp: pagingStep_def Let_def)
    next
      case small: False
      with assms Inr False obtain st3 where
        "fetchSelected env (length (jsSlice (flattenOwners (results pg)) (positionsToSkip st))) 0
         (jsSlice (flattenOwners (results pg)) (positionsToSkip st))
         (st\<lparr>newLocalBookmark := positionsToSkip st + positionsRequired st, positionsToSkip := 0\<rparr>) = Inr st3"
        by (auto simp: pagingStep_def Let_def split: sum.splits)
      with assms Inr False small that(4)[of pg st3] show ?thesis
        by (auto simp: pagingStep_def Let_def)
    qed
  qed
qed

lemma pagingStep_nonneg:
  assumes step: "pagingStep env usr st = Inr (st', broke)"
    and inv: "0 \<le> positionsToSkip st"
  shows "0 \<le> positionsToSkip st'"
  using step
proof (cases rule: pagingStep_cases)
  case (emptyNext pg b)
  with inv show ?thesis by simp
next
  case (emptyLast pg)
  with inv show ?thesis by simp
next
  case (skip pg)
  then show ?thesis by simp
next
  case (consume pg st3)
  from fetchSelected_keeps[OF consume(5)] consume(6) show ?thesis by simp
qed

lemma pagingReaches_nonneg:
  assumes "pagingReaches env usr st0 st" and "0 \<le> positionsToSkip st0"
  shows "0 \<le> positionsToSkip st"
  using assms
proof (induction rule: pagingReaches.induct)
  case (start st)
  then show ?case .
next
  case (pass st st' st'')
  from pass.IH[OF pagingStep_nonneg[OF pass.hyps(1) pass.prems]] show ?case .
qed

lemma pagingStep_invariant:
  assumes step: "pagingStep env usr st = Inr (st', broke)"
    and inv: "positionsToSkip st \<noteq> 0 \<longrightarrow> positionsRequired st = n"
    and n: "n \<noteq> 0"
  shows "(positionsToSkip st' \<noteq> 0 \<longrightarrow> positionsRequired st' = n)
     \<and> (broke \<or> \<not> pagingContinues st' \<longrightarrow> positionsToSkip st' \<noteq> 0 \<longrightarrow> currentPageBookmark st' = [])"
  using step
proof (cases rule: pagingStep_cases)
  case (emptyNext pg b)
  with inv n show ?thesis by (auto simp: pagingContinues_def)
next
  case (emptyLast pg)
  with inv show ?thesis by simp
next
  case (skip pg)
  from skip(2,3) have "positionsToSkip st \<noteq> 0" by auto
  with skip inv n show ?thesis by (auto simp: pagingContinues_def)
next
  case (consume pg st3)
  from fetchSelected_keeps[OF consume(5)] consume(6) show ?thesis by simp
qed

lemma pagingReaches_invariant:
  assumes "pagingReaches env usr st0 st"
    and "positionsToSkip st0 \<noteq> 0 \<longrightarrow> positionsRequired st0 = n"
    and "n \<noteq> 0"
  shows "positionsToSkip st \<noteq> 0 \<longrightarrow> positionsRequired st = n"
  using assms
proof (induction rule: pagingReaches.induct)
  case (start st)
  then show ?case by simp
next
  case (pass st st' st'')
  from pagingStep_invariant[OF pass.hyps(1) pass.prems(1,2)] pass.IH pass.prems(2)
  show ?case by blast
qed

lemma addMetaData_error:
  assumes "addMetaDataToUserPositions env ps = Inl e"
  shows "\<exists>classKey. fetchTokenClass env (fungibleKey classKey) = Inl e"
  using assms
proof (induction ps)
  case Nil
  then show ?case by simp
next
  case (Cons p ps)
  then show ?case by (auto split: sum.splits)
qed

section \<open>getUserPositions: what the specification says of it\<close>

text \<open>
  C3, amended. A call that returns has run the paging loop to a last pass, from a state
  \<open>st\<close> at its head to the state \<open>stF\<close> after it. The returned bookmark is the empty string
  when the loop ends with an empty chain cursor and the last element consumed; it is the
  final cursor with an empty local part when the last element of the final page was
  consumed; otherwise it is the final cursor with the local part
  \<open>positionsToSkip + positionsRequired\<close> as these two stand at the head of the last pass.
  That is the input's \<open>localBookmark + limit\<close> when the last pass is the first one.
\<close>

theorem C3_returned_bookmark:
  assumes "getUserPositions env dto = Some (Inr res)"
  shows "\<exists>st stF broke.
           pagingReaches env (user dto) (initialPaging env dto) st
         \<and> pagingStep env (user dto) st = Inr (stF, broke)
         \<and> (broke \<or> \<not> pagingContinues stF)
         \<and> pagingLoop env (user dto) (initialPaging env dto) = Some (Inr stF)
         \<and> nextBookMark res =
             (if currentPageBookmark stF = [] \<and> isLastIteration stF then []
              else if isLastIteration stF then genBookMark (currentPageBookmark stF) []
              else genBookMark (currentPageBookmark stF)
                     (numberToString (positionsToSkip st + positionsRequired st)))
         \<and> (st = initialPaging env dto \<longrightarrow>
               positionsToSkip st + positionsRequired st
                 = jsNumber env (snd (splitBookmark env (bookmark dto))) + limit dto)"
proof -
  from assms obtain stF where
    loop: "pagingLoop env (user dto) (initialPaging env dto) = Some (Inr stF)"
    and fin: "finishPaging env stF = Inr res"
    by (auto simp: getUserPositions_def split: option.splits sum.splits)
  from pagingLoop_returns[OF loop] obtain st broke where
    r: "pagingReaches env (user dto) (initialPaging env dto) st"
    and p: "pagingStep env (user dto) st = Inr (stF, broke)"
    and stop: "broke \<or> \<not> pagingContinues stF"
    by blast
  from fin have b: "nextBookMark res = newBookmark stF"
    by (auto simp: finishPaging_def split: if_splits sum.splits)
  have nl: "newLocalBookmark stF = positionsToSkip st + positionsRequired st"
    by (rule pagingStep_newLocal[OF p])
  have i: "positionsToSkip (initialPaging env dto) + positionsRequired (initialPaging env dto)
             = jsNumber env (snd (splitBookmark env (bookmark dto))) + limit dto"
    by (simp add: initialPaging_def split_beta)
  show ?thesis
    apply (rule exI[of _ st], rule exI[of _ stF], rule exI[of _ broke])
    using r p stop loop b nl i by (simp add: newBookmark_def)
qed

theorem C3_returned_bookmark_witness:
  "\<exists>res. getUserPositions examplePositionsEnv \<lparr>user = ''alice'', limit = 5, bookmark = []\<rparr> = Some (Inr res)
     \<and> nextBookMark res = ''b1|2''
     \<and> (\<exists>st stF broke.
           pagingReaches examplePositionsEnv ''alice''
             (initialPaging examplePositionsEnv \<lparr>user = ''alice'', limit = 5, bookmark = []\<rparr>) st
         \<and> pagingStep examplePositionsEnv ''alice'' st = Inr (stF, broke)
         \<and> (broke \<or> \<not> pagingContinues stF)
         \<and> nextBookMark res =
             (if currentPageBookmark stF = [] \<and> isLastIteration stF then []
              else if isLastIteration stF then genBookMark (currentPageBookmark stF) []
              else genBookMark (currentPageBookmark stF)
                     (numberToString (positionsToSkip st + positionsRequired st))))"
proof -
  let ?dto = "\<lparr>user = ''alice'', limit = 5, bookmark = []\<rparr>"
  have "returnedBookmark (getUserPositions examplePositionsEnv ?dto) = Some ''b1|2''"
    by code_simp
  then obtain res where run: "getUserPositions examplePositionsEnv ?dto = Some (Inr res)"
    and b: "nextBookMark res = ''b1|2''"
    by (auto simp: returnedBookmark_def split: option.splits sum.splits)
  from C3_returned_bookmark[OF run]
  have "\<exists>st stF broke.
           pagingReaches examplePositionsEnv ''alice'' (initialPaging examplePositionsEnv ?dto) st
         \<and> pagingStep examplePositionsEnv ''alice'' st = Inr (stF, broke)
         \<and> (broke \<or> \<not> pagingContinues stF)
         \<and> nextBookMark res =
             (if currentPageBookmark stF = [] \<and> isLastIteration stF then []
              else if isLastIteration stF then genBookMark (currentPageBookmark stF) []
              else genBookMark (currentPageBookmark stF)
                     (numberToString (positionsToSkip st + positionsRequired st)))"
    by (elim exE conjE, intro exI conjI) simp_all
  with run b show ?thesis
    by (intro exI[of _ res] conjI)
qed

text \<open>
  The claim as the specification states it takes the local part from the input. For
  \<open>alice\<close>, a limit of 5 and the empty bookmark, which parses to an empty local part
  (the number 0), the call reads three positions from the first page and two of the four
  on the page at \<open>b1\<close>; it returns \<open>b1|2\<close>, not \<open>b1|5\<close>.
\<close>

theorem C3_returned_bookmark_counterexample:
  "splitBookmark examplePositionsEnv [] = ([], [])
   \<and> returnedBookmark (getUserPositions examplePositionsEnv \<lparr>user = ''alice'', limit = 5, bookmark = []\<rparr>)
       = Some ''b1|2''
   \<and> genBookMark ''b1'' (numberToString (jsNumber examplePositionsEnv [] + 5)) = ''b1|5''"
  by code_simp

text \<open>
  C7, amended. Let no collaborator (the paginated query, \<open>parseTickRange\<close>,
  \<open>getDexPosition\<close>, \<open>fetchTokenClass\<close>) throw a validation error with this very message.
  Then \<open>getUserPositions\<close> throws the validation error "Invalid bookmark" if and only if
  the paging loop returns with the counter of positions to skip other than 0, which is
  what line 120 tests. When the limit is not 0 the chain cursor is then exhausted, and
  when the local part of the input bookmark is not negative the counter is then strictly
  positive.
\<close>

theorem C7_invalid_bookmark:
  assumes pages: "\<forall>u b. getObjectsByPartialCompositeKeyWithPagination env u b
                  \<noteq> Inl (ValidationFailedError ''Invalid bookmark'')"
    and ranges: "\<forall>r. parseTickRange env r \<noteq> Inl (ValidationFailedError ''Invalid bookmark'')"
    and poss: "\<forall>h up lo p. getDexPosition env h up lo p \<noteq> Inl (ValidationFailedError ''Invalid bookmark'')"
    and classes: "\<forall>k. fetchTokenClass env k \<noteq> Inl (ValidationFailedError ''Invalid bookmark'')"
  shows "getUserPositions env dto = Some (Inl (ValidationFailedError ''Invalid bookmark''))
     \<longleftrightarrow> (\<exists>stF. pagingLoop env (user dto) (initialPaging env dto) = Some (Inr stF)
            \<and> positionsToSkip stF \<noteq> 0
            \<and> (limit dto \<noteq> 0 \<longrightarrow> currentPageBookmark stF = [])
            \<and> (0 \<le> jsNumber env (snd (splitBookmark env (bookmark dto))) \<longrightarrow> 0 < positionsToSkip stF))"
    (is "?L \<longleftrightarrow> ?R")
proof
  assume ?R
  then obtain stF where "pagingLoop env (user dto) (initialPaging env dto) = Some (Inr stF)"
    "positionsToSkip stF \<noteq> 0" by blast
  then show ?L by (simp add: getUserPositions_def finishPaging_def)
next
  assume l: ?L
  let ?ib = "ValidationFailedError ''Invalid bookmark''"
  let ?st0 = "initialPaging env dto"
  have "pagingLoop env (user dto) ?st0 \<noteq> Some (Inl ?ib)"
  proof
    assume "pagingLoop env (user dto) ?st0 = Some (Inl ?ib)"
    from pagingLoop_throws[OF this] obtain st where "pagingStep env (user dto) st = Inl ?ib" by blast
    from pagingStep_error[OF this] pages ranges poss show False by blast
  qed
  with l obtain stF where loop: "pagingLoop env (user dto) ?st0 = Some (Inr stF)"
    and fin: "finishPaging env stF = Inl ?ib"
    by (auto simp: getUserPositions_def split: option.splits sum.splits)
  have "addMetaDataToUserPositions env (userPositions stF) \<noteq> Inl ?ib"
    using addMetaData_error classes by blast
  with fin have skip: "positionsToSkip stF \<noteq> 0"
    by (auto simp: finishPaging_def split: if_splits sum.splits)
  from pagingLoop_returns[OF loop] obtain st broke where
    r: "pagingReaches env (user dto) ?st0 st"
    and p: "pagingStep env (user dto) st = Inr (stF, broke)"
    and stop: "broke \<or> \<not> pagingContinues stF"
    by blast
  have i: "positionsToSkip ?st0 = jsNumber env (snd (splitBookmark env (bookmark dto)))"
    "positionsRequired ?st0 = limit dto"
    by (simp_all add: initialPaging_def split_beta)
  have cursor: "currentPageBookmark stF = []" if n: "limit dto \<noteq> 0"
  proof -
    from i have "positionsToSkip ?st0 \<noteq> 0 \<longrightarrow> positionsRequired ?st0 = limit dto" by simp
    from pagingReaches_invariant[OF r this n]
    have "positionsToSkip st \<noteq> 0 \<longrightarrow> positionsRequired st = limit dto" .
    from pagingStep_invariant[OF p this n] stop skip show ?thesis by blast
  qed
  have positive: "0 < positionsToSkip stF"
    if c: "0 \<le> jsNumber env (snd (splitBookmark env (bookmark dto)))"
  proof -
    from c i have "0 \<le> positionsToSkip ?st0" by simp
    from pagingStep_nonneg[OF p pagingReaches_nonneg[OF r this]] skip show ?thesis by simp
  qed
  from loop skip cursor positive show ?R by blast
qed

theorem C7_invalid_bookmark_witness:
  "0 \<le> jsNumber examplePositionsEnv (snd (splitBookmark examplePositionsEnv ''b1|7''))
   \<and> getUserPositions examplePositionsEnv \<lparr>user = ''alice'', limit = 5, bookmark = ''b1|7''\<rparr>
       = Some (Inl (ValidationFailedError ''Invalid bookmark''))
   \<and> (\<exists>stF. pagingLoop examplePositionsEnv ''alice''
               (initialPaging examplePositionsEnv \<lparr>user = ''alice'', limit = 5, bookmark = ''b1|7''\<rparr>)
               = Some (Inr stF)
            \<and> currentPageBookmark stF = [] \<and> 0 < positionsToSkip stF)
   \<and> getUserPositions examplePositionsEnv \<lparr>user = ''alice'', limit = 5, bookmark = ''b1|4''\<rparr>
       \<noteq> Some (Inl (ValidationFailedError ''Invalid bookmark''))"
proof -
  let ?dto = "\<lparr>user = ''alice'', limit = 5, bookmark = ''b1|7''\<rparr>"
  have count: "0 \<le> jsNumber examplePositionsEnv (snd (splitBookmark examplePositionsEnv (bookmark ?dto)))"
    by code_simp
  have lim: "limit ?dto \<noteq> 0" by simp
  have pages: "\<forall>u b. getObjectsByPartialCompositeKeyWithPagination examplePositionsEnv u b
                  \<noteq> Inl (ValidationFailedError ''Invalid bookmark'')"
    by (simp add: examplePositionsEnv_def examplePages_def)
  have ranges: "\<forall>r. parseTickRange examplePositionsEnv r \<noteq> Inl (ValidationFailedError ''Invalid bookmark'')"
    by (simp add: examplePositionsEnv_def)
  have poss: "\<forall>h up lo p. getDexPosition examplePositionsEnv h up lo p
                 \<noteq> Inl (ValidationFailedError ''Invalid bookmark'')"
    by (simp add: examplePositionsEnv_def)
  have classes: "\<forall>k. fetchTokenClass examplePositionsEnv k \<noteq> Inl (ValidationFailedError ''Invalid bookmark'')"
    by (simp add: examplePositionsEnv_def split_beta)
  have thrown: "getUserPositions examplePositionsEnv ?dto = Some (Inl (ValidationFailedError ''Invalid bookmark''))"
    by code_simp
  have other: "getUserPositions examplePositionsEnv \<lparr>user = ''alice'', limit = 5, bookmark = ''b1|4''\<rparr>
       \<noteq> Some (Inl (ValidationFailedError ''Invalid bookmark''))"
    by code_simp
  from C7_invalid_bookmark[OF pages ranges poss classes, of ?dto] thrown
  have "\<exists>stF. pagingLoop examplePositionsEnv (user ?dto) (initialPaging examplePositionsEnv ?dto) = Some (Inr stF)
            \<and> positionsToSkip stF \<noteq> 0
            \<and> (limit ?dto \<noteq> 0 \<longrightarrow> currentPageBookmark stF = [])
            \<and> (0 \<le> jsNumber examplePositionsEnv (snd (splitBookmark examplePositionsEnv (bookmark ?dto)))
                 \<longrightarrow> 0 < positionsToSkip stF)"
    by simp
  with count lim
  have "\<exists>stF. pagingLoop examplePositionsEnv (user ?dto) (initialPaging examplePositionsEnv ?dto) = Some (Inr stF)
            \<and> currentPageBookmark stF = [] \<and> 0 < positionsToSkip stF"
    by blast
  with count thrown other show ?thesis by simp
qed

text \<open>
  The claim as the specification states it has the error only with the cursor exhausted
  and the counter strictly positive. For \<open>bob\<close>, who owns nothing, and the bookmark
  \<open>zz|-2\<close> the loop leaves by \<open>break\<close> with the counter at -2, and the call throws. For
  \<open>alice\<close>, a limit of 0 and the bookmark \<open>|5\<close> the first page of three positions is
  skipped, the loop condition fails on the limit with the cursor at \<open>b1\<close> and the counter
  at 2, and the call throws.
\<close>

theorem C7_invalid_bookmark_counterexample:
  "getUserPositions examplePositionsEnv \<lparr>user = ''bob'', limit = 5, bookmark = ''zz|-2''\<rparr>
       = Some (Inl (ValidationFailedError ''Invalid bookmark''))
   \<and> pagingLoop examplePositionsEnv ''bob''
         (initialPaging examplePositionsEnv \<lparr>user = ''bob'', limit = 5, bookmark = ''zz|-2''\<rparr>)
       = Some (Inr \<lparr>currentPageBookmark = [], positionsToSkip = - 2, positionsRequired = 5,
                    newLocalBookmark = 3, isLastIteration = True, userPositions = []\<rparr>)
   \<and> getUserPositions examplePositionsEnv \<lparr>user = ''alice'', limit = 0, bookmark = ''|5''\<rparr>
       = Some (Inl (ValidationFailedError ''Invalid bookmark''))
   \<and> pagingLoop examplePositionsEnv ''alice''
         (initialPaging examplePositionsEnv \<lparr>user = ''alice'', limit = 0, bookmark = ''|5''\<rparr>)
       = Some (Inr \<lparr>currentPageBookmark = ''b1'', positionsToSkip = 2, positionsRequired = 0,
                    newLocalBookmark = 5, isLastIteration = False, userPositions = []\<rparr>)"
  by code_simp

text \<open>
  C10, amended. When the local part of the input bookmark equals the number of flattened
  positions of the page at the chain part, that page has at least one position and
  reports no further cursor, the call returns no position and the bookmark made of an
  empty chain part and the local part \<open>localBookmark + limit\<close>, which is not the empty
  bookmark.
\<close>

theorem C10_bookmark_at_page_end:
  assumes split: "splitBookmark env (bookmark dto) = (chainBookmark, localBookmark)"
    and page: "getObjectsByPartialCompositeKeyWithPagination env (user dto) chainBookmark = Inr pg"
    and count: "jsNumber env localBookmark = int (length (flattenOwners (results pg)))"
    and some: "flattenOwners (results pg) \<noteq> []"
    and last: "metadataBookmark pg = None \<or> metadataBookmark pg = Some []"
  shows "getUserPositions env dto
           = Some (Inr \<lparr>positions = [],
                        nextBookMark = genBookMark [] (numberToString (jsNumber env localBookmark + limit dto))\<rparr>)
     \<and> genBookMark [] (numberToString (jsNumber env localBookmark + limit dto)) \<noteq> []"
proof -
  let ?st0 = "initialPaging env dto"
  let ?st1 = "?st0\<lparr>newLocalBookmark := jsNumber env localBookmark + limit dto,
                    positionsToSkip := 0, currentPageBookmark := []\<rparr>"
  have i: "currentPageBookmark ?st0 = chainBookmark" "positionsToSkip ?st0 = jsNumber env localBookmark"
    "positionsRequired ?st0 = limit dto" "isLastIteration ?st0 = False" "userPositions ?st0 = []"
    using split by (simp_all add: initialPaging_def)
  have step: "pagingStep env (user dto) ?st0 = Inr (?st1, False)"
    using page count some last i by (auto simp: pagingStep_def Let_def)
  have loop: "pagingLoop env (user dto) ?st0 = Some (Inr ?st1)"
    by (subst pagingLoop.simps) (simp add: step pagingContinues_def)
  have "finishPaging env ?st1
          = Inr \<lparr>positions = [],
                 nextBookMark = genBookMark [] (numberToString (jsNumber env localBookmark + limit dto))\<rparr>"
    using i by (simp add: finishPaging_def newBookmark_def)
  with loop show ?thesis by (simp add: getUserPositions_def genBookMark_def)
qed

theorem C10_bookmark_at_page_end_witness:
  "splitBookmark examplePositionsEnv ''b1|4'' = (''b1'', ''4'')
   \<and> jsNumber examplePositionsEnv ''4'' = 4
   \<and> length (flattenOwners (results \<lparr>results = [\<lparr>ownerPoolHash = ''poolB'',
                           tickRangeMap = [(''-60:60'', [''b1'', ''b2'', ''b3'', ''b4''])]\<rparr>],
             metadataBookmark = None\<rparr>)) = 4
   \<and> getUserPositions examplePositionsEnv \<lparr>user = ''alice'', limit = 5, bookmark = ''b1|4''\<rparr>
       = Some (Inr \<lparr>positions = [], nextBookMark = ''|9''\<rparr>)"
proof -
  let ?dto = "\<lparr>user = ''alice'', limit = 5, bookmark = ''b1|4''\<rparr>"
  let ?pg = "\<lparr>results = [\<lparr>ownerPoolHash = ''poolB'',
                           tickRangeMap = [(''-60:60'', [''b1'', ''b2'', ''b3'', ''b4''])]\<rparr>],
             metadataBookmark = None\<rparr>"
  have split: "splitBookmark examplePositionsEnv (bookmark ?dto) = (''b1'', ''4'')"
    by code_simp
  have page: "getObjectsByPartialCompositeKeyWithPagination examplePositionsEnv (user ?dto) ''b1'' = Inr ?pg"
    by code_simp
  have len: "length (flattenOwners (results ?pg)) = 4"
    by code_simp
  have num: "jsNumber examplePositionsEnv ''4'' = 4"
    by code_simp
  have count: "jsNumber examplePositionsEnv ''4'' = int (length (flattenOwners (results ?pg)))"
    unfolding len num by simp
  have some: "flattenOwners (results ?pg) \<noteq> []"
    using len by auto
  have last: "metadataBookmark ?pg = None \<or> metadataBookmark ?pg = Some []"
    by simp
  have str: "genBookMark [] (numberToString (4 + 5)) = ''|9''"
    by code_simp
  from C10_bookmark_at_page_end[OF split page count some last]
  have "getUserPositions examplePositionsEnv ?dto
          = Some (Inr \<lparr>positions = [], nextBookMark = genBookMark [] (numberToString (4 + limit ?dto))\<rparr>)"
    unfolding num by simp
  then have "getUserPositions examplePositionsEnv ?dto = Some (Inr \<lparr>positions = [], nextBookMark = ''|9''\<rparr>)"
    using str by simp
  with split num len show ?thesis by simp
qed

text \<open>
  Without a position on the page the claim fails: \<open>bob\<close> owns nothing, the empty bookmark
  has the local part 0, the number of positions on his one page, and the call returns
  the empty bookmark.
\<close>

theorem C10_bookmark_at_page_end_counterexample:
  "splitBookmark examplePositionsEnv [] = ([], [])
   \<and> getObjectsByPartialCompositeKeyWithPagination examplePositionsEnv ''bob'' []
       = Inr \<lparr>results = [], metadataBookmark = None\<rparr>
   \<and> jsNumber examplePositionsEnv [] = int (length (flattenOwners []))
   \<and> returnedBookmark (getUserPositions examplePositionsEnv \<lparr>user = ''bob'', limit = 5, bookmark = []\<rparr>)
       = Some []"
  by code_simp

section \<open>configurePoolDexFee and requirePosititve: what the specification says of them\<close>

text \<open>
  C8. \<open>configurePoolDexFee\<close> fails with NotFound when the protocol fee configuration is
  absent, and with Unauthorized when it exists and the calling user is not among its
  authorities. For an authorised caller, a valid token pair and a pool found on the
  ledger, it fails with a validation error when the requested protocol fee is outside
  [0, 1], and otherwise writes the pool with the new protocol fee to the ledger and
  returns that fee.
\<close>

theorem C8_configurePoolDexFee:
  "(fetchDexProtocolFeeConfig env led = Inr None \<longrightarrow>
      configurePoolDexFee env led dto
        = Inl (NotFoundError
            ''Protocol fee configuration has yet to be defined. Dex fee configuration is not defined.''))
   \<and> (\<forall>config. fetchDexProtocolFeeConfig env led = Inr (Some config)
          \<and> callingUser env \<notin> set (authorities config) \<longrightarrow>
        configurePoolDexFee env led dto
          = Inl (UnauthorizedError
              (''CallingUser '' @ callingUser env @ '' is not authorized to create or update'')))
   \<and> (\<forall>config tok0 tok1 pool.
          fetchDexProtocolFeeConfig env led = Inr (Some config)
          \<and> callingUser env \<in> set (authorities config)
          \<and> validateTokenOrder env (dtoToken0 dto) (dtoToken1 dto) = Inr (tok0, tok1)
          \<and> getObjectByKey env led
               (createCompositeKey env (INDEX_KEY env) [tok0, tok1, feeToString env (dtoFee dto)]) = Inr pool
          \<longrightarrow>
          (dtoProtocolFee dto < 0 \<or> 1 < dtoProtocolFee dto \<longrightarrow>
             (\<exists>msg. configurePoolDexFee env led dto = Inl (ValidationFailedError msg)))
          \<and> (0 \<le> dtoProtocolFee dto \<and> dtoProtocolFee dto \<le> 1 \<longrightarrow>
               (\<forall>led'. putChainObject env led (pool\<lparr>protocolFees := dtoProtocolFee dto\<rparr>) = Inr led' \<longrightarrow>
                  configurePoolDexFee env led dto = Inr (\<lparr>resProtocolFee = dtoProtocolFee dto\<rparr>, led'))))"
  by (auto simp: configurePoolDexFee_def configureProtocolFee_def Let_def)

theorem C8_configurePoolDexFee_witness:
  "configurePoolDexFee (exampleFeeEnv ''admin'' None) examplePoolLedger (exampleFeeDto (1 / 10))
     = Inl (NotFoundError
            ''Protocol fee configuration has yet to be defined. Dex fee configuration is not defined.'')
   \<and> configurePoolDexFee (exampleFeeEnv ''eve'' (Some \<lparr>authorities = [''admin'']\<rparr>)) examplePoolLedger
        (exampleFeeDto (1 / 10))
     = Inl (UnauthorizedError ''CallingUser eve is not authorized to create or update'')
   \<and> (\<exists>msg. configurePoolDexFee (exampleFeeEnv ''admin'' (Some \<lparr>authorities = [''admin'']\<rparr>))
               examplePoolLedger (exampleFeeDto (11 / 10)) = Inl (ValidationFailedError msg))
   \<and> configurePoolDexFee (exampleFeeEnv ''admin'' (Some \<lparr>authorities = [''admin'']\<rparr>)) examplePoolLedger
        (exampleFeeDto (1 / 10))
     = Inr (\<lparr>resProtocolFee = 1 / 10\<rparr>,
            examplePoolLedger(''GCDXCHLPL/GALA/USDC/30'' \<mapsto> examplePool (1 / 10)))"
proof -
  let ?cfg = "\<lparr>authorities = [''admin'']\<rparr>"
  let ?admin = "exampleFeeEnv ''admin'' (Some ?cfg)"
  let ?eve = "exampleFeeEnv ''eve'' (Some ?cfg)"
  let ?none = "exampleFeeEnv ''admin'' None"
  have f: "feeToString (exampleFeeEnv c g) (dtoFee (exampleFeeDto x)) = ''30''" for c g x
    by (simp add: exampleFeeEnv_def exampleFeeDto_def numberToString_def)
  have a: "fetchDexProtocolFeeConfig ?none examplePoolLedger = Inr None"
    by (simp add: exampleFeeEnv_def)
  have b: "fetchDexProtocolFeeConfig ?eve examplePoolLedger = Inr (Some ?cfg)
           \<and> callingUser ?eve \<notin> set (authorities ?cfg)"
    by (simp add: exampleFeeEnv_def)
  have c: "fetchDexProtocolFeeConfig ?admin examplePoolLedger = Inr (Some ?cfg)
          \<and> callingUser ?admin \<in> set (authorities ?cfg)
          \<and> validateTokenOrder ?admin (dtoToken0 (exampleFeeDto x)) (dtoToken1 (exampleFeeDto x)) = Inr (''GALA'', ''USDC'')
          \<and> getObjectByKey ?admin examplePoolLedger
               (createCompositeKey ?admin (INDEX_KEY ?admin) [''GALA'', ''USDC'',
                   feeToString ?admin (dtoFee (exampleFeeDto x))]) = Inr (examplePool 0)" for x
    unfolding f by (simp add: exampleFeeEnv_def exampleFeeDto_def examplePoolLedger_def)
  have p: "putChainObject ?admin examplePoolLedger ((examplePool 0)\<lparr>protocolFees := dtoProtocolFee (exampleFeeDto (1 / 10))\<rparr>)
            = Inr (examplePoolLedger(''GCDXCHLPL/GALA/USDC/30'' \<mapsto> examplePool (1 / 10)))"
    by (simp add: exampleFeeEnv_def exampleFeeDto_def examplePool_def numberToString_def)
  have r: "dtoProtocolFee (exampleFeeDto x) = x" "callingUser ?eve = ''eve''" for x
    by (simp_all add: exampleFeeDto_def exampleFeeEnv_def)
  note t = C8_configurePoolDexFee
  from t[of ?none examplePoolLedger "exampleFeeDto (1 / 10)"] a
  have 1: "configurePoolDexFee ?none examplePoolLedger (exampleFeeDto (1 / 10))
     = Inl (NotFoundError
            ''Protocol fee configuration has yet to be defined. Dex fee configuration is not defined.'')"
    by blast
  from t[of ?eve examplePoolLedger "exampleFeeDto (1 / 10)"] b
  have "configurePoolDexFee ?eve examplePoolLedger (exampleFeeDto (1 / 10))
     = Inl (UnauthorizedError (''CallingUser '' @ callingUser ?eve @ '' is not authorized to create or update''))"
    by blast
  then have 2: "configurePoolDexFee ?eve examplePoolLedger (exampleFeeDto (1 / 10))
     = Inl (UnauthorizedError ''CallingUser eve is not authorized to create or update'')"
    unfolding r by simp
  have "dtoProtocolFee (exampleFeeDto (11 / 10)) < 0 \<or> 1 < dtoProtocolFee (exampleFeeDto (11 / 10))"
    unfolding r by simp
  with t[of ?admin examplePoolLedger "exampleFeeDto (11 / 10)"] c[of "11 / 10"]
  have 3: "\<exists>msg. configurePoolDexFee ?admin examplePoolLedger (exampleFeeDto (11 / 10)) = Inl (ValidationFailedError msg)"
    by blast
  have "0 \<le> dtoProtocolFee (exampleFeeDto (1 / 10)) \<and> dtoProtocolFee (exampleFeeDto (1 / 10)) \<le> 1"
    unfolding r by simp
  with t[of ?admin examplePoolLedger "exampleFeeDto (1 / 10)"] c[of "1 / 10"] p
  have "configurePoolDexFee ?admin examplePoolLedger (exampleFeeDto (1 / 10))
     = Inr (\<lparr>resProtocolFee = dtoProtocolFee (exampleFeeDto (1 / 10))\<rparr>,
            examplePoolLedger(''GCDXCHLPL/GALA/USDC/30'' \<mapsto> examplePool (1 / 10)))"
    by blast
  then have 4: "configurePoolDexFee ?admin examplePoolLedger (exampleFeeDto (1 / 10))
     = Inr (\<lparr>resProtocolFee = 1 / 10\<rparr>,
            examplePoolLedger(''GCDXCHLPL/GALA/USDC/30'' \<mapsto> examplePool (1 / 10)))"
    unfolding r .
  from 1 2 3 4 show ?thesis by (intro conjI)
qed

text \<open>
  C9, amended. \<open>requirePosititve\<close> ignores every argument that is not a \<open>BigNumber\<close>, does
  not throw on such arguments nor on decimals that are zero or more, and when some
  argument is a decimal below zero it throws a ConflictError with the message
  "Uint Out of Bounds error :Uint".
\<close>

theorem C9_requirePosititve:
  "requirePosititve params =
     (if \<exists>b. JsBigNumber b \<in> set params \<and> b < 0
      then Inl (ConflictError ''Uint Out of Bounds error :Uint'')
      else Inr ())"
proof (induction params)
  case Nil
  show ?case by simp
next
  case (Cons positive params)
  show ?case
  proof (cases positive)
    case (JsBigNumber b)
    with Cons show ?thesis by auto
  qed (use Cons in auto)
qed

theorem C9_requirePosititve_witness:
  "requirePosititve [JsNumber (- 5), JsString ''-1'', JsBigNumber 0, JsUndefined, JsBigNumber 7, JsNull,
                     JsBoolean False] = Inr ()
   \<and> requirePosititve [JsBigNumber 1, JsNumber 2, JsBigNumber (- 1 / 2)]
       = Inl (ConflictError ''Uint Out of Bounds error :Uint'')"
proof -
  have "requirePosititve [JsNumber (- 5), JsString ''-1'', JsBigNumber 0, JsUndefined, JsBigNumber 7, JsNull,
                     JsBoolean False] = Inr ()"
    unfolding C9_requirePosititve by auto
  moreover have "requirePosititve [JsBigNumber 1, JsNumber 2, JsBigNumber (- 1 / 2)]
       = Inl (ConflictError ''Uint Out of Bounds error :Uint'')"
  proof -
    have "\<exists>b. JsBigNumber b \<in> set [JsBigNumber 1, JsNumber 2, JsBigNumber (- 1 / 2)] \<and> b < 0"
      by (intro exI[of _ "- 1 / 2"]) simp
    then show ?thesis unfolding C9_requirePosititve by (simp only: if_True)
  qed
  ultimately show ?thesis ..
qed

text \<open>
  The claim as the specification states it names the error ValidationFailed; what is
  thrown on a negative decimal is a ConflictError.
\<close>

theorem C9_requirePosititve_counterexample:
  "requirePosititve [JsBigNumber (- 1)] = Inl (ConflictError ''Uint Out of Bounds error :Uint'')
   \<and> \<not> isValidationFailed (ConflictError ''Uint Out of Bounds error :Uint'')"
  by simp

section \<open>When the swap loop returns\<close>

text \<open>
  \<open>processSwapSteps\<close> has no progress check of its own: whether it returns rests on what
  \<open>computeSwapStep\<close> and \<open>nextInitialisedTickWithInSameWord\<close> do, and neither is among
  the sources. Two facts about the loop hold for every choice of them; the
  specification's sentence on termination (C1) lies between the two.
\<close>

lemma no_progress_runs_for_ever:
  assumes cont: "swapContinues env state sqrtPriceLimit"
    and same: "swapStep env led state pool sqrtPriceLimit ei z = Inr (state, led)"
  shows "processSwapSteps env led state pool sqrtPriceLimit ei z = None"
proof (rule ccontr)
  assume "processSwapSteps env led state pool sqrtPriceLimit ei z \<noteq> None"
  then obtain r where r: "processSwapSteps env led state pool sqrtPriceLimit ei z = Some r" by auto
  have "\<not> (env' = env \<and> led' = led \<and> state' = state \<and> pool' = pool \<and> lim' = sqrtPriceLimit
            \<and> ei' = ei \<and> z' = z)"
    if "processSwapSteps env' led' state' pool' lim' ei' z' = Some r'" for env' led' state' pool' lim' ei' z' r'
    using that
  proof (induction rule: processSwapSteps.raw_induct[rotated 1, consumes 1])
    case (1 f env' led' state' pool' lim' ei' z' r')
    show ?case
    proof
      assume e: "env' = env \<and> led' = led \<and> state' = state \<and> pool' = pool \<and> lim' = sqrtPriceLimit
            \<and> ei' = ei \<and> z' = z"
      with 1(2) cont same have "f env led state pool sqrtPriceLimit ei z = Some r'" by simp
      from 1(1)[OF this] show False by simp
    qed
  qed
  from this[OF r] show False by simp
qed

lemma stuck_step:
  assumes nxt: "nextInitialisedTickWithInSameWord env (bitmap pool) (tick state) (tickSpacing pool) z
                   (sqrtPrice state) = (tickNext, initialised)"
    and inside: "MIN_TICK env \<le> tickNext" "tickNext \<le> MAX_TICK env"
    and step: "computeSwapStep env (sqrtPrice state)
                 (stepTarget z (tickToSqrtPrice env tickNext) sqrtPriceLimit)
                 (liquidity state) (amountSpecifiedRemaining state) (fee pool)
               = Inr (sqrtPrice state, 0, 0, 0)"
    and away: "tickToSqrtPrice env tickNext \<noteq> sqrtPrice state"
    and zero: "dividedBy env 0 (liquidity state) = 0"
  shows "swapStep env led state pool sqrtPriceLimit ei z = Inr (state, led)"
  unfolding swapStep_unfold[OF nxt inside step]
  using away zero
  by (simp add: crossTick_def applied_fields)
    (simp add: applyFeeGrowth_def applyProtocolFee_def applyAmounts_def)

lemma swapStep_result:
  assumes nxt: "nextInitialisedTickWithInSameWord env (bitmap pool) (tick state) (tickSpacing pool) z
                   (sqrtPrice state) = (tickNext, initialised)"
    and inside: "MIN_TICK env \<le> tickNext" "tickNext \<le> MAX_TICK env"
    and step: "computeSwapStep env (sqrtPrice state)
                 (stepTarget z (tickToSqrtPrice env tickNext) sqrtPriceLimit)
                 (liquidity state) (amountSpecifiedRemaining state) (fee pool)
               = Inr (price, amountIn, amountOut, feeAmount)"
    and ok: "swapStep env led state pool sqrtPriceLimit ei z = Inr (state', led')"
  shows "sqrtPrice state' = price
     \<and> amountSpecifiedRemaining state' =
         (if ei then amountSpecifiedRemaining state - (amountIn + feeAmount)
          else amountSpecifiedRemaining state + amountOut)
     \<and> (price = tickToSqrtPrice env tickNext \<longrightarrow> tick state' = (if z then tickNext - 1 else tickNext))"
proof -
  let ?st = "applyFeeGrowth env
          (fst (applyProtocolFee pool feeAmount (applyAmounts ei amountIn amountOut feeAmount (state\<lparr>sqrtPrice := price\<rparr>))))
          (snd (applyProtocolFee pool feeAmount (applyAmounts ei amountIn amountOut feeAmount (state\<lparr>sqrtPrice := price\<rparr>))))"
  have c: "crossTick env led pool z (sqrtPrice state) tickNext initialised (tickToSqrtPrice env tickNext) ?st
             = Inr (state', led')"
    using ok unfolding swapStep_unfold[OF nxt inside step] .
  have f: "sqrtPrice ?st = price"
    "amountSpecifiedRemaining ?st =
         (if ei then amountSpecifiedRemaining state - (amountIn + feeAmount)
          else amountSpecifiedRemaining state + amountOut)"
    by (simp_all add: applyFeeGrowth_def applyProtocolFee_def applyAmounts_def Let_def)
  have t: "price = tickToSqrtPrice env tickNext \<longrightarrow> tick state' = (if z then tickNext - 1 else tickNext)"
    using c f(1) by (auto simp: crossTick_def Let_def split: if_splits sum.splits)
  from crossTick_keeps[OF c] f t show ?thesis by simp
qed

lemma full_share_adds_nothing:
  assumes "protocolFees pool = 1" and "dividedBy env 0 (liquidity state) = 0"
  shows "feeGrowthAdded env pool state feeAmount = 0"
  using assms by (simp add: feeGrowthAdded_def)

text \<open>
  When the tick search returns a tick in the direction of travel and every swap step
  either reaches its target price or uses up the specified amount, \<open>processSwapSteps\<close>
  returns, with a state or with an error, from every state, pool and price limit: an
  iteration after which the loop goes on has reached the next tick's price and moved the
  tick pointer towards the end of the tick range, beyond which the loop throws.
\<close>

theorem swap_loop_returns:
  assumes ahead: "nextTickAhead env z" and exh: "stepReachesOrExhausts env ei"
  shows "\<exists>r. processSwapSteps env led state pool sqrtPriceLimit ei z = Some r"
proof (induction "swapMeasure env z state" arbitrary: state led rule: less_induct)
  case less
  show ?case
  proof (cases "swapContinues env state sqrtPriceLimit")
    case False
    then show ?thesis by (subst processSwapSteps.simps) simp
  next
    case cont: True
    show ?thesis
    proof (cases "swapStep env led state pool sqrtPriceLimit ei z")
      case (Inl e)
      with cont show ?thesis by (subst processSwapSteps.simps) simp
    next
      case (Inr p)
      obtain state' led' where p: "p = (state', led')" by (cases p)
      with Inr have ok: "swapStep env led state pool sqrtPriceLimit ei z = Inr (state', led')" by simp
      have unfold: "processSwapSteps env led state pool sqrtPriceLimit ei z
                      = processSwapSteps env led' state' pool sqrtPriceLimit ei z"
        using cont ok by (subst processSwapSteps.simps) simp
      show ?thesis
      proof (cases "swapContinues env state' sqrtPriceLimit")
        case False
        then show ?thesis unfolding unfold by (subst processSwapSteps.simps) simp
      next
        case cont': True
        from ok obtain tickNext initialised price amountIn amountOut feeAmount where h:
          "nextInitialisedTickWithInSameWord env (bitmap pool) (tick state) (tickSpacing pool) z (sqrtPrice state)
             = (tickNext, initialised)"
          "MIN_TICK env \<le> tickNext" "tickNext \<le> MAX_TICK env"
          "computeSwapStep env (sqrtPrice state) (stepTarget z (tickToSqrtPrice env tickNext) sqrtPriceLimit)
             (liquidity state) (amountSpecifiedRemaining state) (fee pool)
             = Inr (price, amountIn, amountOut, feeAmount)"
          by (rule swapStep_Inr_obtain)
        from swapStep_result[OF h ok] have
          s: "sqrtPrice state' = price"
            "amountSpecifiedRemaining state' =
               (if ei then amountSpecifiedRemaining state - (amountIn + feeAmount)
                else amountSpecifiedRemaining state + amountOut)"
            "price = tickToSqrtPrice env tickNext \<longrightarrow> tick state' = (if z then tickNext - 1 else tickNext)"
          by simp_all
        from exh h(4) have "price = stepTarget z (tickToSqrtPrice env tickNext) sqrtPriceLimit
            \<or> f18 env (if ei then amountSpecifiedRemaining state - (amountIn + feeAmount)
                        else amountSpecifiedRemaining state + amountOut) = 0"
          unfolding stepReachesOrExhausts_def by blast
        with cont' s(1,2) have "price = stepTarget z (tickToSqrtPrice env tickNext) sqrtPriceLimit"
          and "price \<noteq> sqrtPriceLimit"
          by (auto simp: swapContinues_def)
        then have "price = tickToSqrtPrice env tickNext"
          by (auto simp: stepTarget_def split: if_splits)
        with s(3) have t: "tick state' = (if z then tickNext - 1 else tickNext)" by simp
        from ahead h(1) have "if z then tickNext \<le> tick state else tick state < tickNext"
          unfolding nextTickAhead_def
          by (cases z) (metis fst_conv)+
        with t h(2,3) have "swapMeasure env z state' < swapMeasure env z state"
          by (auto simp: swapMeasure_def split: if_splits)
        from less[OF this] show ?thesis unfolding unfold .
      qed
    qed
  qed
qed

theorem swap_loop_returns_witness:
  "nextTickAhead exampleSwapEnv True
   \<and> stepReachesOrExhausts exampleSwapEnv True
   \<and> (\<exists>r. processSwapSteps exampleSwapEnv exampleTicks (exampleState 1000 2500) (examplePool (1 / 4))
              (1 / 2) True True = Some r)"
proof -
  have a: "nextTickAhead exampleSwapEnv True"
    by (simp add: nextTickAhead_def exampleSwapEnv_def exampleNextTick_def)
  have b: "stepReachesOrExhausts exampleSwapEnv True"
    by (auto simp: stepReachesOrExhausts_def exampleSwapEnv_def exampleSwapStep_def split: if_splits)
  from swap_loop_returns[OF a b] a b show ?thesis by blast
qed

text \<open>
  When the loop condition holds and \<open>computeSwapStep\<close> returns the price it was given
  with zero amounts, short of the next tick's price, the iteration leaves state and
  ledger as they were, and \<open>processSwapSteps\<close> never returns.
\<close>

theorem swap_loop_without_progress:
  assumes cont: "swapContinues env state sqrtPriceLimit"
    and nxt: "nextInitialisedTickWithInSameWord env (bitmap pool) (tick state) (tickSpacing pool) z
                   (sqrtPrice state) = (tickNext, initialised)"
    and inside: "MIN_TICK env \<le> tickNext" "tickNext \<le> MAX_TICK env"
    and step: "computeSwapStep env (sqrtPrice state)
                 (stepTarget z (tickToSqrtPrice env tickNext) sqrtPriceLimit)
                 (liquidity state) (amountSpecifiedRemaining state) (fee pool)
               = Inr (sqrtPrice state, 0, 0, 0)"
    and away: "tickToSqrtPrice env tickNext \<noteq> sqrtPrice state"
    and zero: "dividedBy env 0 (liquidity state) = 0"
  shows "swapStep env led state pool sqrtPriceLimit ei z = Inr (state, led)
     \<and> processSwapSteps env led state pool sqrtPriceLimit ei z = None"
  using stuck_step[OF nxt inside step away zero]
    no_progress_runs_for_ever[OF cont stuck_step[OF nxt inside step away zero]]
  by simp

theorem swap_loop_without_progress_witness:
  "swapContinues stuckSwapEnv (exampleState 1000 1000) (9 / 10)
   \<and> computeSwapStep stuckSwapEnv (sqrtPrice (exampleState 1000 1000))
        (stepTarget True (tickToSqrtPrice stuckSwapEnv (- 60)) (9 / 10))
        (liquidity (exampleState 1000 1000)) (amountSpecifiedRemaining (exampleState 1000 1000))
        (fee (examplePool (1 / 4)))
       = Inr (sqrtPrice (exampleState 1000 1000), 0, 0, 0)
   \<and> processSwapSteps stuckSwapEnv exampleTicks (exampleState 1000 1000) (examplePool (1 / 4)) (9 / 10)
        True True = None"
proof -
  let ?s = "exampleState 1000 1000" and ?pool = "examplePool (1 / 4)"
  have cont: "swapContinues stuckSwapEnv ?s (9 / 10)"
    by (simp add: swapContinues_def stuckSwapEnv_def exampleSwapEnv_def exampleState_def)
  have nxt: "nextInitialisedTickWithInSameWord stuckSwapEnv (bitmap ?pool) (tick ?s) (tickSpacing ?pool) True
               (sqrtPrice ?s) = (- 60, True)"
    by (simp add: stuckSwapEnv_def exampleSwapEnv_def exampleNextTick_def exampleState_def)
  have inside: "MIN_TICK stuckSwapEnv \<le> - 60" "- 60 \<le> MAX_TICK stuckSwapEnv"
    by (simp_all add: stuckSwapEnv_def exampleSwapEnv_def)
  have step: "computeSwapStep stuckSwapEnv (sqrtPrice ?s)
        (stepTarget True (tickToSqrtPrice stuckSwapEnv (- 60)) (9 / 10))
        (liquidity ?s) (amountSpecifiedRemaining ?s) (fee ?pool) = Inr (sqrtPrice ?s, 0, 0, 0)"
    by (simp add: stuckSwapEnv_def exampleSwapEnv_def)
  have away: "tickToSqrtPrice stuckSwapEnv (- 60) \<noteq> sqrtPrice ?s"
    by (simp add: stuckSwapEnv_def exampleSwapEnv_def exampleState_def)
  have zero: "dividedBy stuckSwapEnv 0 (liquidity ?s) = 0"
    by (simp add: stuckSwapEnv_def exampleSwapEnv_def)
  from swap_loop_without_progress[OF cont nxt inside step away zero, of exampleTicks True]
  show ?thesis using cont step by simp
qed

end
